theory Spec2Isabelle
  imports Main
begin

section \<open>Go library functions used by the binding code\<close>

text \<open>
  Strings are byte lists. The case functions of package \<open>strings\<close> are modelled on
  ASCII letters, which is what Go method names and the literals of the source consist of.
\<close>

definition upperLetters :: string where
  "upperLetters = ''ABCDEFGHIJKLMNOPQRSTUVWXYZ''"

definition lowerLetters :: string where
  "lowerLetters = ''abcdefghijklmnopqrstuvwxyz''"

definition lowerChar :: "char \<Rightarrow> char" where
  "lowerChar c = (case map_of (zip upperLetters lowerLetters) c of Some d \<Rightarrow> d | None \<Rightarrow> c)"

definition upperChar :: "char \<Rightarrow> char" where
  "upperChar c = (case map_of (zip lowerLetters upperLetters) c of Some d \<Rightarrow> d | None \<Rightarrow> c)"

text \<open>\<open>strings.ToLower\<close>, \<open>strings.ToUpper\<close> and \<open>strings.EqualFold\<close>.\<close>

definition ToLower :: "string \<Rightarrow> string" where
  "ToLower s = map lowerChar s"

definition ToUpper :: "string \<Rightarrow> string" where
  "ToUpper s = map upperChar s"

definition EqualFold :: "string \<Rightarrow> string \<Rightarrow> bool" where
  "EqualFold s t = (ToLower s = ToLower t)"

text \<open>\<open>strings.TrimSpace\<close>: leading and trailing white space removed.\<close>

definition isSpace :: "char \<Rightarrow> bool" where
  "isSpace c = (c \<in> set [CHR '' '', CHR 0x09, CHR 0x0A, CHR 0x0B, CHR 0x0C, CHR 0x0D])"

definition TrimSpace :: "string \<Rightarrow> string" where
  "TrimSpace s = rev (dropWhile isSpace (rev (dropWhile isSpace s)))"

text \<open>\<open>strings.Split(s, sep)\<close> for a one-byte separator; the result is never empty.\<close>

fun Split :: "string \<Rightarrow> char \<Rightarrow> string list" where
  "Split [] sep = [[]]"
| "Split (c # cs) sep =
     (if c = sep then [] # Split cs sep
      else (case Split cs sep of w # ws \<Rightarrow> (c # w) # ws | [] \<Rightarrow> [[c]]))"

text \<open>
  \<open>strings.LastIndex\<close>: the greatest position at which \<open>needle\<close> occurs in
  \<open>hay\<close>; Go returns \<open>-1\<close> where the model returns \<open>None\<close>.
\<close>

definition occursAt :: "string \<Rightarrow> string \<Rightarrow> nat \<Rightarrow> bool" where
  "occursAt needle hay p = (take (length needle) (drop p hay) = needle)"

definition LastIndex :: "string \<Rightarrow> string \<Rightarrow> nat option" where
  "LastIndex hay needle =
     (if length hay < length needle then None
      else List.find (occursAt needle hay) (rev [0 ..< Suc (length hay - length needle)]))"

text \<open>
  \<open>strings.Replace(s, old, new, -1)\<close> for a non-empty \<open>old\<close>: every occurrence,
  from the left and without overlap. \<open>skip\<close> counts the bytes of a replaced occurrence
  that are still to be passed over.
\<close>

fun replaceFrom :: "nat \<Rightarrow> string \<Rightarrow> string \<Rightarrow> string \<Rightarrow> string" where
  "replaceFrom skip old new [] = []"
| "replaceFrom skip old new (c # cs) =
     (if skip > 0 then replaceFrom (skip - 1) old new cs
      else if take (length old) (c # cs) = old
        then new @ replaceFrom (length old - 1) old new cs
      else c # replaceFrom 0 old new cs)"

definition Replace :: "string \<Rightarrow> string \<Rightarrow> string \<Rightarrow> string" where
  "Replace s old new = replaceFrom 0 old new s"

text \<open>
  \<open>gstr.PosRI(haystack, needle)\<close> without a start offset, as the source calls it: the
  position of the last occurrence, letter case ignored. Package \<open>gstr\<close> is not under
  \<open>src/\<close>; its documented behaviour is \<open>LastIndex\<close> on the lower-cased strings.
\<close>

definition PosRI :: "string \<Rightarrow> string \<Rightarrow> nat option" where
  "PosRI haystack needle =
     (if haystack = [] then None else LastIndex (ToLower haystack) (ToLower needle))"

text \<open>
  \<open>gregex.IsMatchString(`\{\.\w+\}`, s)\<close>: some position of \<open>s\<close> starts with an
  opening brace, a dot, one or more word characters and a closing brace. The closing
  brace is no word character, so the greedy \<open>\w+\<close> is the longest run of word
  characters.
\<close>

definition isWord :: "char \<Rightarrow> bool" where
  "isWord c = (c \<in> set (upperLetters @ lowerLetters @ ''0123456789_''))"

definition builtInHere :: "string \<Rightarrow> bool" where
  "builtInHere s =
     (case s of
        a # b # rest \<Rightarrow>
          a = CHR ''{'' \<and> b = CHR ''.'' \<and> takeWhile isWord rest \<noteq> [] \<and>
          (case dropWhile isWord rest of c # _ \<Rightarrow> c = CHR ''}'' | [] \<Rightarrow> False)
      | _ \<Rightarrow> False)"

fun hasBuiltIn :: "string \<Rightarrow> bool" where
  "hasBuiltIn [] = False"
| "hasBuiltIn (c # cs) = (builtInHere (c # cs) \<or> hasBuiltIn cs)"

section \<open>The reflective view of a bound object\<close>

text \<open>
  The binding functions see the bound object only through package \<open>reflect\<close>. A
  \<open>goType\<close> describes a named struct type \<open>T\<close> as they read it: the name and the
  package path of \<open>T\<close>, the name \<open>gstr.Replace(t.String(), pkgName + ".", "")\<close> of the
  pointer type (packages \<open>gstr\<close> and \<open>gfile\<close> are not under \<open>src/\<close>, so the
  replaced name is a field), and the method set of \<open>*T\<close> in the order \<open>reflect\<close>
  enumerates it. A method's type is \<open>func(*Request)\<close> or any other function type, kept
  as the text \<open>Type().String()\<close> prints.
\<close>

type_synonym addr = nat

type_synonym structVal = "(string \<times> int) list"

datatype funcType = FuncRequest | FuncOther string

record goType =
  typeName :: string
  typePkgPath :: string
  typeReplacedName :: string
  typeMethods :: "(string \<times> funcType) list"

text \<open>
  The object handed to a binding function: a struct value, or a pointer to a struct that
  lives at an address of the program's heap. (Objects of other kinds are not modelled.)
\<close>

datatype boundObject = StructValue goType structVal | Pointer goType addr

fun typeOf :: "boundObject \<Rightarrow> goType" where
  "typeOf (StructValue ty sv) = ty"
| "typeOf (Pointer ty a) = ty"

text \<open>\<open>v.MethodByName(name)\<close>: the method's type, or \<open>None\<close> for the zero Value.\<close>

definition MethodByName :: "goType \<Rightarrow> string \<Rightarrow> funcType option" where
  "MethodByName ty name = map_of (typeMethods ty) name"

text \<open>
  \<open>objName\<close> of the source: the replaced name, in parentheses when it starts with a
  star. (A pointer type's name starts with a star, so \<open>objName[0]\<close> is in range.)
\<close>

definition objName :: "goType \<Rightarrow> string" where
  "objName ty =
     (let n = typeReplacedName ty in if take 1 n = ''*'' then ''('' @ n @ '')'' else n)"

section \<open>Routes, diagnostics and the server's helpers\<close>

text \<open>
  The closure \<open>callMultiObjectMethods\<close> returns captures the object, the method name
  and the struct name. It is created only for a pointer (see below), so it holds the
  pointer's address.
\<close>

record dispatcher =
  dObject :: addr
  dType :: goType
  dStructName :: string
  dMethodName :: string

datatype handlerType = handlerTypeHandler | handlerTypeObject

record handlerItem =
  itemName :: string
  itemType :: handlerType
  itemFunc :: dispatcher
  middleware :: "string list"
  source :: string

datatype level = LvFatal | LvError | LvDebug

record diag =
  dLevel :: level
  dText :: string

text \<open>
  What a binding call ends with: it returned before \<open>bindHandlerByMap\<close>, it handed
  the map \<open>m\<close> to \<open>bindHandlerByMap\<close>, or it panicked.
\<close>

datatype bindOutcome = Aborted | Bound "string \<rightharpoonup> handlerItem" | Panicked string

text \<open>
  The methods and package-level values of \<open>Server\<close> that the source calls and that are
  not under \<open>src/\<close> are parameters: \<open>parsePattern\<close> (an error, or domain, method and
  path), \<open>serveHandlerKey\<close>, \<open>mergeBuildInNameToPattern\<close>, \<open>defaultMethod\<close> and the
  keys of \<open>methodsMap\<close>.
\<close>

record server =
  parsePattern :: "string \<Rightarrow> string + (string \<times> string \<times> string)"
  serveHandlerKey :: "string \<Rightarrow> string \<Rightarrow> string \<Rightarrow> string"
  mergeBuildInNameToPattern :: "string \<Rightarrow> string \<Rightarrow> string \<Rightarrow> bool \<Rightarrow> string"
  defaultMethod :: string
  methodsMap :: "string list"

section \<open>callMultiObjectMethods: creating the dispatch closure\<close>

text \<open>
  Lines 68-75. \<open>t.Elem()\<close> panics for a type of kind struct; for a pointer type it is
  the pointed-to struct type, whose name becomes \<open>structName\<close>.
\<close>

definition closureOf :: "goType \<Rightarrow> addr \<Rightarrow> string \<Rightarrow> dispatcher" where
  "closureOf ty a methodName =
     \<lparr>dObject = a, dType = ty, dStructName = typeName ty, dMethodName = methodName\<rparr>"

definition callMultiObjectMethods :: "boundObject \<Rightarrow> string \<Rightarrow> string + dispatcher" where
  "callMultiObjectMethods object methodName =
     (case object of
        StructValue ty sv \<Rightarrow> Inl ''reflect: Elem of invalid type''
      | Pointer ty a \<Rightarrow> Inr (closureOf ty a methodName))"

section \<open>The binding functions\<close>

definition invalidRouteMethod :: "goType \<Rightarrow> string \<Rightarrow> string \<Rightarrow> string" where
  "invalidRouteMethod ty methodName defined =
     ''invalid route method: '' @ typePkgPath ty @ ''.'' @ objName ty @ ''.'' @ methodName @
     '' defined as \"'' @ defined @
     ''\", but \"func(*ghttp.Request)\" is required for object registry''"

definition ignoreRouteMethod :: "goType \<Rightarrow> string \<Rightarrow> string \<Rightarrow> string" where
  "ignoreRouteMethod ty methodName defined =
     ''ignore route method: '' @ typePkgPath ty @ ''.'' @ objName ty @ ''.'' @ methodName @
     '' defined as \"'' @ defined @
     ''\", no match \"func(*ghttp.Request)\" for object registry''"

definition newHandlerItem ::
  "goType \<Rightarrow> string \<Rightarrow> dispatcher \<Rightarrow> string list \<Rightarrow> string \<Rightarrow> handlerItem" where
  "newHandlerItem ty methodName f mw src =
     \<lparr>itemName = typePkgPath ty @ ''.'' @ objName ty @ ''.'' @ methodName,
      itemType = handlerTypeHandler, itemFunc = f, middleware = mw, source = src\<rparr>"

text \<open>
  A loop over the methods of the type. The body returns the state it reached and, when
  it panicked, the panic; a panic ends the loop.
\<close>

fun eachMethod ::
  "('a \<Rightarrow> 'st \<Rightarrow> 'st \<times> string option) \<Rightarrow> 'a list \<Rightarrow> 'st \<Rightarrow> 'st \<times> string option" where
  "eachMethod body [] st = (st, None)"
| "eachMethod body (x # xs) st =
     (case body x st of
        (st', Some e) \<Rightarrow> (st', Some e)
      | (st', None) \<Rightarrow> eachMethod body xs st')"

type_synonym bindState = "diag list \<times> (string \<rightharpoonup> handlerItem)"

definition finishBind :: "bindState \<times> string option \<Rightarrow> diag list \<times> bindOutcome" where
  "finishBind res =
     (case res of
        ((ds, m), None) \<Rightarrow> (ds, Bound m)
      | ((ds, m), Some e) \<Rightarrow> (ds, Panicked e))"

text \<open>Lines 142-148: the map of requested method names; \<open>None\<close> is the nil map.\<close>

definition methodFilter :: "string \<Rightarrow> string list option" where
  "methodFilter method =
     (if length method > 0 then Some (map TrimSpace (Split method (CHR '',''))) else None)"

text \<open>Lines 156-158: the pattern the rest of \<open>doBindMultiObject\<close> works with.\<close>

definition bindPattern :: "server \<Rightarrow> string \<Rightarrow> string \<times> string \<times> string \<Rightarrow> string" where
  "bindPattern s pattern parsed =
     (case parsed of (domain, method, path) \<Rightarrow>
        if EqualFold method (defaultMethod s) then serveHandlerKey s [] path domain
        else pattern)"

text \<open>
  Lines 229-233: the second key for an \<open>Index\<close> method. Where \<open>PosRI\<close> finds
  nothing it returns \<open>-1\<close> and the slice expression \<open>key[0:p]\<close> panics: the result is
  \<open>None\<close>.
\<close>

definition indexKey :: "string \<Rightarrow> nat \<Rightarrow> string" where
  "indexKey key p =
     (let k = take p key @ drop (p + 6) key
      in if length k = 0 \<or> take 1 k = ''@'' then ''/'' @ k else k)"

definition indexAlias :: "string \<Rightarrow> string option" where
  "indexAlias key = (case PosRI key ''/index'' of None \<Rightarrow> None | Some p \<Rightarrow> Some (indexKey key p))"

text \<open>Lines 184-243, the body of the loop of \<open>doBindMultiObject\<close>.\<close>

definition objectBody ::
  "server \<Rightarrow> string \<Rightarrow> boundObject \<Rightarrow> string list option \<Rightarrow> string list \<Rightarrow> string \<Rightarrow>
   string \<times> funcType \<Rightarrow> bindState \<Rightarrow> bindState \<times> string option" where
  "objectBody s pattern object methodMap mw src meth st =
     (case (meth, st) of ((methodName, ft), (ds, m)) \<Rightarrow>
      let ty = typeOf object in
      if (case methodMap of Some names \<Rightarrow> methodName \<notin> set names | None \<Rightarrow> False)
      then ((ds, m), None)
      else if methodName = ''Init'' \<or> methodName = ''Shut'' then ((ds, m), None)
      else (case ft of
        FuncOther defined \<Rightarrow>
          if (case methodMap of Some names \<Rightarrow> names \<noteq> [] | None \<Rightarrow> False)
          then ((ds @ [\<lparr>dLevel = LvError, dText = invalidRouteMethod ty methodName defined\<rparr>], m), None)
          else ((ds @ [\<lparr>dLevel = LvDebug, dText = ignoreRouteMethod ty methodName defined\<rparr>], m), None)
      | FuncRequest \<Rightarrow>
          let key = mergeBuildInNameToPattern s pattern (typeName ty) methodName True in
          (case callMultiObjectMethods object methodName of
             Inl e \<Rightarrow> ((ds, m), Some e)
           | Inr f \<Rightarrow>
               let m1 = m(key \<mapsto> newHandlerItem ty methodName f mw src) in
               if EqualFold methodName ''Index'' \<and> \<not> hasBuiltIn pattern then
                 (case indexAlias key of
                    None \<Rightarrow> ((ds, m1), Some ''slice bounds out of range'')
                  | Some k \<Rightarrow>
                      (case callMultiObjectMethods object methodName of
                         Inl e \<Rightarrow> ((ds, m1), Some e)
                       | Inr f2 \<Rightarrow>
                           ((ds, m1(k \<mapsto> newHandlerItem ty methodName f2 mw src)), None)))
               else ((ds, m1), None))))"

text \<open>Lines 137-246.\<close>

definition doBindMultiObject ::
  "server \<Rightarrow> string \<Rightarrow> boundObject \<Rightarrow> string \<Rightarrow> string list \<Rightarrow> string \<Rightarrow>
   diag list \<times> bindOutcome" where
  "doBindMultiObject s pattern object method mw src =
     (let methodMap = methodFilter method in
      case parsePattern s pattern of
        Inl err \<Rightarrow> ([\<lparr>dLevel = LvFatal, dText = err\<rparr>], Aborted)
      | Inr parsed \<Rightarrow>
          finishBind
            (eachMethod (objectBody s (bindPattern s pattern parsed) object methodMap mw src)
               (typeMethods (typeOf object)) ([], Map.empty)))"

text \<open>Lines 248-308.\<close>

definition doBindMultiObjectMethod ::
  "server \<Rightarrow> string \<Rightarrow> boundObject \<Rightarrow> string \<Rightarrow> string list \<Rightarrow> string \<Rightarrow>
   diag list \<times> bindOutcome" where
  "doBindMultiObjectMethod s pattern object method mw src =
     (let ty = typeOf object; methodName = TrimSpace method in
      case MethodByName ty methodName of
        None \<Rightarrow> ([\<lparr>dLevel = LvFatal, dText = ''invalid method name: '' @ methodName\<rparr>], Aborted)
      | Some (FuncOther defined) \<Rightarrow>
          ([\<lparr>dLevel = LvError, dText = invalidRouteMethod ty methodName defined\<rparr>], Aborted)
      | Some FuncRequest \<Rightarrow>
          let key = mergeBuildInNameToPattern s pattern (typeName ty) methodName False in
          (case callMultiObjectMethods object methodName of
             Inl e \<Rightarrow> ([], Panicked e)
           | Inr f \<Rightarrow> ([], Bound [key \<mapsto> newHandlerItem ty methodName f mw src])))"

text \<open>Lines 338-367, the body of the loop of \<open>doBindMultiObjectRest\<close>.\<close>

definition restBody ::
  "server \<Rightarrow> string \<Rightarrow> boundObject \<Rightarrow> string list \<Rightarrow> string \<Rightarrow>
   string \<times> funcType \<Rightarrow> bindState \<Rightarrow> bindState \<times> string option" where
  "restBody s pattern object mw src meth st =
     (case (meth, st) of ((methodName, ft), (ds, m)) \<Rightarrow>
      let ty = typeOf object in
      if ToUpper methodName \<notin> set (methodsMap s) then ((ds, m), None)
      else (case ft of
        FuncOther defined \<Rightarrow>
          ((ds @ [\<lparr>dLevel = LvError, dText = invalidRouteMethod ty methodName defined\<rparr>], m), None)
      | FuncRequest \<Rightarrow>
          let key = mergeBuildInNameToPattern s (methodName @ '':'' @ pattern) (typeName ty)
                      methodName False in
          (case callMultiObjectMethods object methodName of
             Inl e \<Rightarrow> ((ds, m), Some e)
           | Inr f \<Rightarrow> ((ds, m(key \<mapsto> newHandlerItem ty methodName f mw src)), None))))"

text \<open>Lines 310-370.\<close>

definition doBindMultiObjectRest ::
  "server \<Rightarrow> string \<Rightarrow> boundObject \<Rightarrow> string list \<Rightarrow> string \<Rightarrow> diag list \<times> bindOutcome" where
  "doBindMultiObjectRest s pattern object mw src =
     finishBind
       (eachMethod (restBody s pattern object mw src) (typeMethods (typeOf object))
          ([], Map.empty))"

text \<open>Lines 44-66, the exported functions; \<open>method\<close> is the variadic parameter.\<close>

definition BindMultiObject ::
  "server \<Rightarrow> string \<Rightarrow> boundObject \<Rightarrow> string list \<Rightarrow> diag list \<times> bindOutcome" where
  "BindMultiObject s pattern object method =
     doBindMultiObject s pattern object (case method of [] \<Rightarrow> [] | m # _ \<Rightarrow> m) [] []"

definition BindMultiObjectMethod ::
  "server \<Rightarrow> string \<Rightarrow> boundObject \<Rightarrow> string \<Rightarrow> diag list \<times> bindOutcome" where
  "BindMultiObjectMethod s pattern object method =
     doBindMultiObjectMethod s pattern object method [] []"

definition BindMultiObjectRest ::
  "server \<Rightarrow> string \<Rightarrow> boundObject \<Rightarrow> diag list \<times> bindOutcome" where
  "BindMultiObjectRest s pattern object = doBindMultiObjectRest s pattern object [] []"

section \<open>The state a request runs in\<close>

text \<open>
  The heap has two regions. \<open>structs\<close> holds the struct objects of the program, which
  its methods read and write through their receiver; \<open>cells\<close> holds the variables of
  pointer type that \<open>reflect.New\<close> allocates, each a pointer or nil. User code never
  gets the address of a cell, so it acts on \<open>structs\<close> and on the request only.
\<close>

record request =
  written :: "string list"

type_synonym userState = "structVal list \<times> request"

text \<open>
  The methods of the bound type, \<open>Init\<close> and \<open>Shut\<close> included: the method named
  \<open>name\<close>, called on a receiver, changes the user state and may panic.
\<close>

type_synonym userCode = "string \<Rightarrow> addr option \<Rightarrow> userState \<Rightarrow> userState \<times> string option"

text \<open>A method value: a method bound to the receiver it was taken from.\<close>

record boundMethod =
  recv :: "addr option"
  mName :: string

text \<open>
  The struct \<open>serviceMultiObjectInfo\<close>. \<open>rVal\<close> is a \<open>reflect.Value\<close>: the type of
  the object the entry was made for, and the address of the cell \<open>reflect.New\<close>
  allocated.
\<close>

record serviceMultiObjectInfo =
  rVal :: "goType \<times> addr"
  methods :: "string \<rightharpoonup> boundMethod"
  initFunc :: "boundMethod option"
  shutFunc :: "boundMethod option"

text \<open>
  Modelled from the spec: \<open>gpool.Pool\<close> is not under \<open>src/\<close>. Sections 3 and 4.4:
  a pool holds idle entries; borrowing takes an idle entry or, when there is none, has
  the pool's factory construct one; returning makes the entry idle again. The idle
  timeout is left out. The factory of the source (lines 81-98) captures the object of the
  dispatcher that created the pool.
\<close>

record pool =
  poolObjectType :: goType
  poolObject :: addr
  poolIdle :: "serviceMultiObjectInfo list"

record world =
  serviceMultiObjectCache :: "string \<rightharpoonup> pool"
  cells :: "addr option list"
  structs :: "structVal list"

text \<open>Line 34: \<open>init\<close> makes the empty map.\<close>

definition initWorld :: "structVal list \<Rightarrow> world" where
  "initWorld ss = \<lparr>serviceMultiObjectCache = Map.empty, cells = [], structs = ss\<rparr>"

text \<open>
  Lines 82-97, the factory. \<open>reflect.New(t)\<close> allocates a cell of the object's type, a
  pointer type, holding nil; \<open>ov.Set(v)\<close> stores the object, the pointer, in it. The
  hooks are method values taken from the cell's value. The type assertion
  \<open>.(func(*Request))\<close> has one result, so it panics on a method of any other type.
\<close>

definition hookOf :: "goType \<Rightarrow> addr option \<Rightarrow> string \<Rightarrow> string + boundMethod option" where
  "hookOf ty ov name =
     (case MethodByName ty name of
        None \<Rightarrow> Inr None
      | Some FuncRequest \<Rightarrow> Inr (Some \<lparr>recv = ov, mName = name\<rparr>)
      | Some (FuncOther defined) \<Rightarrow>
          Inl (''interface conversion: interface {} is '' @ defined @ '', not func(*ghttp.Request)''))"

definition newServiceMultiObjectInfo ::
  "goType \<Rightarrow> addr \<Rightarrow> addr option list \<Rightarrow> string + (serviceMultiObjectInfo \<times> addr option list)" where
  "newServiceMultiObjectInfo ty object cs =
     (let c = length cs;
          cs1 = cs @ [None];
          cs2 = cs1[c := Some object];
          ov = cs2 ! c
      in case hookOf ty ov ''Init'' of
           Inl e \<Rightarrow> Inl e
         | Inr i \<Rightarrow>
             (case hookOf ty ov ''Shut'' of
                Inl e \<Rightarrow> Inl e
              | Inr sh \<Rightarrow>
                  Inr (\<lparr>rVal = (ty, c), methods = Map.empty, initFunc = i, shutFunc = sh\<rparr>, cs2)))"

definition gpoolNew :: "goType \<Rightarrow> addr \<Rightarrow> pool" where
  "gpoolNew ty object = \<lparr>poolObjectType = ty, poolObject = object, poolIdle = []\<rparr>"

definition poolGet ::
  "pool \<Rightarrow> addr option list \<Rightarrow> string + (serviceMultiObjectInfo \<times> pool \<times> addr option list)" where
  "poolGet p cs =
     (case poolIdle p of
        o1 # rest \<Rightarrow> Inr (o1, p\<lparr>poolIdle := rest\<rparr>, cs)
      | [] \<Rightarrow>
          (case newServiceMultiObjectInfo (poolObjectType p) (poolObject p) cs of
             Inl e \<Rightarrow> Inl e
           | Inr (o1, cs') \<Rightarrow> Inr (o1, p, cs')))"

definition poolPut :: "pool \<Rightarrow> serviceMultiObjectInfo \<Rightarrow> pool" where
  "poolPut p o1 = p\<lparr>poolIdle := poolIdle p @ [o1]\<rparr>"

section \<open>The dispatch closure\<close>

text \<open>
  Modelled from the spec: \<open>niceCallFunc\<close> is not under \<open>src/\<close>. Section 4.5: the call
  runs under a failure boundary; a panic of the user code is intercepted, does not
  propagate, and is reported as a server-side error of the request. The reported errors
  are collected in a list. What the closure does after an intercepted panic is left open
  by the spec; it is written into the two models of the closure below, not into this
  function.
\<close>

definition niceCallFunc ::
  "(userState \<Rightarrow> userState \<times> string option) \<Rightarrow> userState \<times> string list \<Rightarrow>
   userState \<times> string list" where
  "niceCallFunc f st =
     (case st of (u, faults) \<Rightarrow>
        (case f u of
           (u', None) \<Rightarrow> (u', faults)
         | (u', Some e) \<Rightarrow> (u', faults @ [e])))"

text \<open>
  What one call of the closure did, in order: the borrow, the calls of the init hook, of
  the target method and of the shut hook, and the return of the entry.
\<close>

datatype event = EvGet | EvInit | EvTarget string | EvShut | EvPut

type_synonym phaseState = "userState \<times> string list \<times> event list"

text \<open>A call of a method value under \<open>niceCallFunc\<close>, recorded as the event \<open>ev\<close>.\<close>

definition callPhase :: "userCode \<Rightarrow> event \<Rightarrow> boundMethod \<Rightarrow> phaseState \<Rightarrow> phaseState" where
  "callPhase code ev f st =
     (case st of (u, faults, tr) \<Rightarrow>
        (case niceCallFunc (code (mName f) (recv f)) (u, faults) of
           (u', faults') \<Rightarrow> (u', faults', tr @ [ev])))"

text \<open>Lines 105-109 and 127-131.\<close>

definition hookPhase :: "userCode \<Rightarrow> event \<Rightarrow> boundMethod option \<Rightarrow> phaseState \<Rightarrow> phaseState" where
  "hookPhase code ev hook st = (case hook of Some f \<Rightarrow> callPhase code ev f st | None \<Rightarrow> st)"

text \<open>
  Lines 111-125. A method that is not cached is looked up on the value of the entry's
  cell; \<open>Interface()\<close> panics on the zero Value of a missing method; the type assertion
  has two results, so a method of another type is neither cached nor called.
\<close>

definition targetPhase ::
  "userCode \<Rightarrow> string \<Rightarrow> addr option list \<Rightarrow> serviceMultiObjectInfo \<Rightarrow> phaseState \<Rightarrow>
   (serviceMultiObjectInfo \<times> phaseState) \<times> string option" where
  "targetPhase code methodName cs o1 st =
     (case methods o1 methodName of
        Some cached \<Rightarrow> ((o1, callPhase code (EvTarget methodName) cached st), None)
      | None \<Rightarrow>
          (case rVal o1 of (ty, c) \<Rightarrow>
             if \<not> c < length cs then ((o1, st), Some ''invalid memory address or nil pointer dereference'')
             else
               (case MethodByName ty methodName of
                  None \<Rightarrow>
                    ((o1, st), Some ''reflect: call of reflect.Value.Interface on zero Value'')
                | Some (FuncOther defined) \<Rightarrow> ((o1, st), None)
                | Some FuncRequest \<Rightarrow>
                    let found = \<lparr>recv = cs ! c, mName = methodName\<rparr> in
                    ((o1\<lparr>methods := (methods o1)(methodName \<mapsto> found)\<rparr>,
                      callPhase code (EvTarget methodName) found st), None))))"

text \<open>
  What a call of the closure leaves: the world, the request, the events, the errors the
  failure boundary reported, and the panic that left the closure, if one did.
\<close>

record served =
  sWorld :: world
  sRequest :: request
  sTrace :: "event list"
  sFaults :: "string list"
  sPanic :: "string option"

text \<open>Lines 79-103: the pool of the struct name, created on first use, and the borrow.\<close>

definition lookupPool :: "dispatcher \<Rightarrow> world \<Rightarrow> pool" where
  "lookupPool d w =
     (case serviceMultiObjectCache w (dStructName d) of
        Some p \<Rightarrow> p
      | None \<Rightarrow> gpoolNew (dType d) (dObject d))"

definition borrow ::
  "dispatcher \<Rightarrow> world \<Rightarrow> string + (serviceMultiObjectInfo \<times> pool \<times> addr option list)" where
  "borrow d w = poolGet (lookupPool d w) (cells w)"

text \<open>
  Lines 77-134, the closure \<open>callMultiObjectMethods\<close> returns, called on a request.
  In \<open>serve\<close> the phases after an intercepted panic run as the source lists them (the
  policy "always run the later phases" of section 9 of the spec).
\<close>

definition serve :: "userCode \<Rightarrow> dispatcher \<Rightarrow> world \<Rightarrow> request \<Rightarrow> served" where
  "serve code d w r =
     (let name = dStructName d;
          p = lookupPool d w;
          w0 = w\<lparr>serviceMultiObjectCache := (serviceMultiObjectCache w)(name \<mapsto> p)\<rparr>
      in case poolGet p (cells w) of
           Inl e \<Rightarrow>
             \<lparr>sWorld = w0, sRequest = r, sTrace = [], sFaults = [], sPanic = Some e\<rparr>
         | Inr (o1, p1, cs1) \<Rightarrow>
             (let st1 = hookPhase code EvInit (initFunc o1) ((structs w, r), [], [EvGet]) in
              case targetPhase code (dMethodName d) cs1 o1 st1 of
                ((o2, (u, faults, tr)), Some e) \<Rightarrow>
                  \<lparr>sWorld = \<lparr>serviceMultiObjectCache = (serviceMultiObjectCache w)(name \<mapsto> p1),
                             cells = cs1, structs = fst u\<rparr>,
                   sRequest = snd u, sTrace = tr, sFaults = faults, sPanic = Some e\<rparr>
              | ((o2, st2), None) \<Rightarrow>
                  (case hookPhase code EvShut (shutFunc o2) st2 of (u, faults, tr) \<Rightarrow>
                     \<lparr>sWorld = \<lparr>serviceMultiObjectCache =
                                  (serviceMultiObjectCache w)(name \<mapsto> poolPut p1 o2),
                                cells = cs1, structs = fst u\<rparr>,
                      sRequest = snd u, sTrace = tr @ [EvPut], sFaults = faults,
                      sPanic = None\<rparr>)))"

text \<open>
  Modelled from the spec: what follows an intercepted panic. Section 4.5 says that the
  phases after a faulted call are not guaranteed to run, and section 9 names the two
  policies: always run them, or skip them as the observed control flow does.
  \<open>serveUnder\<close> is the same closure, lines 77-134, with the policy as a parameter:
  under \<open>SkipLaterPhases\<close> a call for which the boundary reported an error ends the
  closure at once, before the later phases and before \<open>pool.Put\<close>, so the borrowed
  entry is not returned.
\<close>

datatype afterFault = RunLaterPhases | SkipLaterPhases

definition faulted :: "phaseState \<Rightarrow> phaseState \<Rightarrow> bool" where
  "faulted before after = (length (fst (snd before)) < length (fst (snd after)))"

definition endedAt ::
  "world \<Rightarrow> string \<Rightarrow> pool \<Rightarrow> addr option list \<Rightarrow> phaseState \<Rightarrow> served" where
  "endedAt w name p1 cs1 st =
     (case st of (u, faults, tr) \<Rightarrow>
        \<lparr>sWorld = \<lparr>serviceMultiObjectCache = (serviceMultiObjectCache w)(name \<mapsto> p1),
                   cells = cs1, structs = fst u\<rparr>,
         sRequest = snd u, sTrace = tr, sFaults = faults, sPanic = None\<rparr>)"

definition serveUnder ::
  "afterFault \<Rightarrow> userCode \<Rightarrow> dispatcher \<Rightarrow> world \<Rightarrow> request \<Rightarrow> served" where
  "serveUnder policy code d w r =
     (let name = dStructName d;
          p = lookupPool d w;
          w0 = w\<lparr>serviceMultiObjectCache := (serviceMultiObjectCache w)(name \<mapsto> p)\<rparr>
      in case poolGet p (cells w) of
           Inl e \<Rightarrow>
             \<lparr>sWorld = w0, sRequest = r, sTrace = [], sFaults = [], sPanic = Some e\<rparr>
         | Inr (o1, p1, cs1) \<Rightarrow>
             (let st0 = ((structs w, r), [], [EvGet]);
                  st1 = hookPhase code EvInit (initFunc o1) st0
              in if policy = SkipLaterPhases \<and> faulted st0 st1 then endedAt w name p1 cs1 st1
                 else
                   (case targetPhase code (dMethodName d) cs1 o1 st1 of
                      ((o2, (u, faults, tr)), Some e) \<Rightarrow>
                        \<lparr>sWorld = \<lparr>serviceMultiObjectCache =
                                     (serviceMultiObjectCache w)(name \<mapsto> p1),
                                   cells = cs1, structs = fst u\<rparr>,
                         sRequest = snd u, sTrace = tr, sFaults = faults, sPanic = Some e\<rparr>
                    | ((o2, st2), None) \<Rightarrow>
                        if policy = SkipLaterPhases \<and> faulted st1 st2
                        then endedAt w name p1 cs1 st2
                        else
                          (let st3 = hookPhase code EvShut (shutFunc o2) st2
                           in if policy = SkipLaterPhases \<and> faulted st2 st3
                              then endedAt w name p1 cs1 st3
                              else
                                (case st3 of (u, faults, tr) \<Rightarrow>
                                   \<lparr>sWorld = \<lparr>serviceMultiObjectCache =
                                                (serviceMultiObjectCache w)
                                                  (name \<mapsto> poolPut p1 o2),
                                              cells = cs1, structs = fst u\<rparr>,
                                    sRequest = snd u, sTrace = tr @ [EvPut], sFaults = faults,
                                    sPanic = None\<rparr>)))))"

section \<open>Vocabulary of the properties\<close>

text \<open>
  \<open>selected\<close>: the method passes the caller's list of names (every method does when no
  list was given). \<open>objectRegisters\<close>, \<open>restRegisters\<close>: the method reaches
  registration in whole-object mode and in REST mode. \<open>objectMismatch\<close>: the method is
  examined in whole-object mode and fails the signature check.
\<close>

definition selected :: "string list option \<Rightarrow> string \<Rightarrow> bool" where
  "selected methodMap methodName =
     (case methodMap of Some names \<Rightarrow> methodName \<in> set names | None \<Rightarrow> True)"

definition objectExamines :: "string list option \<Rightarrow> string \<times> funcType \<Rightarrow> bool" where
  "objectExamines methodMap meth =
     (selected methodMap (fst meth) \<and> fst meth \<noteq> ''Init'' \<and> fst meth \<noteq> ''Shut'')"

definition objectRegisters :: "string list option \<Rightarrow> string \<times> funcType \<Rightarrow> bool" where
  "objectRegisters methodMap meth = (objectExamines methodMap meth \<and> snd meth = FuncRequest)"

definition objectMismatch :: "string list option \<Rightarrow> string \<times> funcType \<Rightarrow> bool" where
  "objectMismatch methodMap meth = (objectExamines methodMap meth \<and> snd meth \<noteq> FuncRequest)"

definition isVerb :: "server \<Rightarrow> string \<Rightarrow> bool" where
  "isVerb s methodName = (ToUpper methodName \<in> set (methodsMap s))"

definition restRegisters :: "server \<Rightarrow> string \<times> funcType \<Rightarrow> bool" where
  "restRegisters s meth = (isVerb s (fst meth) \<and> snd meth = FuncRequest)"

text \<open>
  The keys the loop of \<open>doBindMultiObject\<close> writes for a method that registers: the key
  built from the pattern and, for an \<open>Index\<close> method under a pattern without built-in
  variable, the second key.
\<close>

definition objectKey :: "server \<Rightarrow> string \<Rightarrow> goType \<Rightarrow> string \<Rightarrow> string" where
  "objectKey s pattern ty methodName =
     mergeBuildInNameToPattern s pattern (typeName ty) methodName True"

definition wantsAlias :: "string \<Rightarrow> string \<Rightarrow> bool" where
  "wantsAlias pattern methodName = (EqualFold methodName ''Index'' \<and> \<not> hasBuiltIn pattern)"

definition objectKeys :: "server \<Rightarrow> string \<Rightarrow> goType \<Rightarrow> string \<Rightarrow> string set" where
  "objectKeys s pattern ty methodName =
     insert (objectKey s pattern ty methodName)
       (if wantsAlias pattern methodName
        then set_option (indexAlias (objectKey s pattern ty methodName)) else {})"

text \<open>
  \<open>aliasFound\<close>: for every method that registers and gets a second key, \<open>PosRI\<close> finds
  \<open>/index\<close> in the first key.
\<close>

definition aliasFound ::
  "server \<Rightarrow> string \<Rightarrow> goType \<Rightarrow> string list option \<Rightarrow> (string \<times> funcType) list \<Rightarrow> bool" where
  "aliasFound s pattern ty methodMap ms =
     list_all (\<lambda>meth. \<not> (objectRegisters methodMap meth \<and> wantsAlias pattern (fst meth)) \<or>
                     indexAlias (objectKey s pattern ty (fst meth)) \<noteq> None) ms"

definition restKey :: "server \<Rightarrow> string \<Rightarrow> goType \<Rightarrow> string \<Rightarrow> string" where
  "restKey s pattern ty methodName =
     mergeBuildInNameToPattern s (methodName @ '':'' @ pattern) (typeName ty) methodName False"

text \<open>The route entry written for a method of a pointer object.\<close>

definition routeItem :: "goType \<Rightarrow> addr \<Rightarrow> string list \<Rightarrow> string \<Rightarrow> string \<Rightarrow> handlerItem" where
  "routeItem ty a mw src methodName =
     newHandlerItem ty methodName (closureOf ty a methodName) mw src"

text \<open>
  The diagnostics the loops emit for a method that fails the signature check (lines
  197-207 and 349-352).
\<close>

definition definedAs :: "funcType \<Rightarrow> string" where
  "definedAs ft =
     (case ft of FuncOther defined \<Rightarrow> defined | FuncRequest \<Rightarrow> ''func(*ghttp.Request)'')"

definition objectDiag :: "string list option \<Rightarrow> goType \<Rightarrow> string \<times> funcType \<Rightarrow> diag" where
  "objectDiag methodMap ty meth =
     (if (case methodMap of Some names \<Rightarrow> names \<noteq> [] | None \<Rightarrow> False)
      then \<lparr>dLevel = LvError, dText = invalidRouteMethod ty (fst meth) (definedAs (snd meth))\<rparr>
      else \<lparr>dLevel = LvDebug, dText = ignoreRouteMethod ty (fst meth) (definedAs (snd meth))\<rparr>)"

definition restDiag :: "goType \<Rightarrow> string \<times> funcType \<Rightarrow> diag" where
  "restDiag ty meth =
     \<lparr>dLevel = LvError, dText = invalidRouteMethod ty (fst meth) (definedAs (snd meth))\<rparr>"

text \<open>
  What a call of the closure needs in order not to fault outside the failure boundary.
  \<open>hooksConform\<close>: \<open>Init\<close> and \<open>Shut\<close>, where the type has them, are of type
  \<open>func(*Request)\<close>. \<open>entryServes\<close>: the entry has the target method cached, or its
  cell exists and its type has the method with type \<open>func(*Request)\<close>.
  \<open>servable\<close>: the pool the closure will use makes such entries and holds only such
  entries.
\<close>

definition hooksConform :: "goType \<Rightarrow> bool" where
  "hooksConform ty =
     (MethodByName ty ''Init'' \<in> {None, Some FuncRequest} \<and>
      MethodByName ty ''Shut'' \<in> {None, Some FuncRequest})"

definition entryServes :: "string \<Rightarrow> addr option list \<Rightarrow> serviceMultiObjectInfo \<Rightarrow> bool" where
  "entryServes methodName cs o1 =
     (methods o1 methodName \<noteq> None \<or>
      (snd (rVal o1) < length cs \<and> MethodByName (fst (rVal o1)) methodName = Some FuncRequest))"

definition poolServes :: "string \<Rightarrow> addr option list \<Rightarrow> pool \<Rightarrow> bool" where
  "poolServes methodName cs p =
     (hooksConform (poolObjectType p) \<and>
      MethodByName (poolObjectType p) methodName = Some FuncRequest \<and>
      list_all (entryServes methodName cs) (poolIdle p))"

definition servable :: "dispatcher \<Rightarrow> world \<Rightarrow> bool" where
  "servable d w = poolServes (dMethodName d) (cells w) (lookupPool d w)"

text \<open>
  The method value the target phase calls on an entry: the cached one, or the method
  taken from the value of the entry's cell.
\<close>

definition resolved :: "string \<Rightarrow> addr option list \<Rightarrow> serviceMultiObjectInfo \<Rightarrow> boundMethod" where
  "resolved methodName cs o1 =
     (case methods o1 methodName of
        Some cached \<Rightarrow> cached
      | None \<Rightarrow> \<lparr>recv = cs ! snd (rVal o1), mName = methodName\<rparr>)"

text \<open>
  The effect of a method value on the user state, and the panic it ends with, as the
  list of errors the failure boundary reports for it.
\<close>

definition effect :: "userCode \<Rightarrow> boundMethod \<Rightarrow> userState \<Rightarrow> userState" where
  "effect code f u = fst (code (mName f) (recv f) u)"

definition hookEffect :: "userCode \<Rightarrow> boundMethod option \<Rightarrow> userState \<Rightarrow> userState" where
  "hookEffect code hook u = (case hook of Some f \<Rightarrow> effect code f u | None \<Rightarrow> u)"

definition faultOf :: "userCode \<Rightarrow> boundMethod \<Rightarrow> userState \<Rightarrow> string list" where
  "faultOf code f u = (case snd (code (mName f) (recv f) u) of None \<Rightarrow> [] | Some e \<Rightarrow> [e])"

definition hookFault :: "userCode \<Rightarrow> boundMethod option \<Rightarrow> userState \<Rightarrow> string list" where
  "hookFault code hook u = (case hook of Some f \<Rightarrow> faultOf code f u | None \<Rightarrow> [])"

text \<open>The entry after the target phase: the target method is cached.\<close>

definition cacheTarget ::
  "string \<Rightarrow> addr option list \<Rightarrow> serviceMultiObjectInfo \<Rightarrow> serviceMultiObjectInfo" where
  "cacheTarget methodName cs o1 =
     (case methods o1 methodName of
        Some cached \<Rightarrow> o1
      | None \<Rightarrow> o1\<lparr>methods := (methods o1)(methodName \<mapsto> resolved methodName cs o1)\<rparr>)"


text \<open>The text of the panic of a failed type assertion to \<open>func(*Request)\<close>.\<close>

definition conversionPanic :: "string \<Rightarrow> string" where
  "conversionPanic defined =
     ''interface conversion: interface {} is '' @ defined @ '', not func(*ghttp.Request)''"

section \<open>Example inputs\<close>

text \<open>
  An instance of the server's helpers, a bound type and user code, at which the
  theorems below are evaluated. The pattern parser of the example knows no method or
  domain part, so every pattern has the default method and the default domain. The key
  builder of the example replaces the built-in variables \<open>{.struct}\<close> and
  \<open>{.method}\<close> by the lower-cased names and otherwise, when asked to, appends the
  lower-cased method name to the path.
\<close>

definition exampleMerge :: "string \<Rightarrow> string \<Rightarrow> string \<Rightarrow> bool \<Rightarrow> string" where
  "exampleMerge pattern structName methodName allowAppend =
     (let p = Replace pattern ''{.struct}'' (ToLower structName);
          uri = takeWhile (\<lambda>c. c \<noteq> CHR ''@'') p;
          domain = dropWhile (\<lambda>c. c \<noteq> CHR ''@'') p
      in if LastIndex p ''{.method}'' \<noteq> None then Replace p ''{.method}'' (ToLower methodName)
         else if \<not> allowAppend then p
         else rev (dropWhile (\<lambda>c. c = CHR ''/'') (rev uri)) @ ''/'' @ ToLower methodName @ domain)"

definition exampleServer :: server where
  "exampleServer =
     \<lparr>parsePattern = (\<lambda>p. if p = [] then Inl ''invalid pattern: URI should not be empty''
                           else Inr (''default'', ''ALL'', p)),
      serveHandlerKey = (\<lambda>method path domain.
         (if method = [] then [] else ToUpper method @ '':'') @ path @
         (if domain = [] then [] else ''@'' @ ToUpper domain)),
      mergeBuildInNameToPattern = exampleMerge,
      defaultMethod = ''ALL'',
      methodsMap = [''GET'', ''PUT'', ''POST'', ''DELETE'', ''PATCH'', ''HEAD'', ''CONNECT'',
                    ''OPTIONS'', ''TRACE'']\<rparr>"

definition exampleType :: goType where
  "exampleType =
     \<lparr>typeName = ''User'', typePkgPath = ''app/api'', typeReplacedName = ''*User'',
      typeMethods = [(''Get'', FuncRequest), (''Index'', FuncRequest), (''Init'', FuncRequest),
                     (''Post'', FuncRequest), (''Show'', FuncOther ''func()''),
                     (''Shut'', FuncRequest)]\<rparr>"

text \<open>
  A type whose \<open>Init\<close> is not of type \<open>func(*Request)\<close>, and user code for the
  methods of the example types: \<open>Init\<close>, \<open>Index\<close> and \<open>Shut\<close> write their name to
  the request, \<open>Index\<close> also counts in the field \<open>hits\<close> of its receiver, and
  \<open>Post\<close> panics.
\<close>

definition exampleBadType :: goType where
  "exampleBadType =
     \<lparr>typeName = ''Job'', typePkgPath = ''app/api'', typeReplacedName = ''*Job'',
      typeMethods = [(''Index'', FuncRequest), (''Init'', FuncOther ''func()'')]\<rparr>"

definition bumpHits :: "structVal \<Rightarrow> structVal" where
  "bumpHits sv = map (\<lambda>(f, v). if f = ''hits'' then (f, v + 1) else (f, v)) sv"

definition writes :: "string \<Rightarrow> request \<Rightarrow> request" where
  "writes text r = r\<lparr>written := written r @ [text]\<rparr>"

definition exampleCode :: userCode where
  "exampleCode name rcv u =
     (case u of (ss, r) \<Rightarrow>
        if name = ''Init'' then ((ss, writes ''init'' r), None)
        else if name = ''Shut'' then ((ss, writes ''shut'' r), None)
        else if name = ''Post'' then ((ss, writes ''post'' r), Some ''boom'')
        else if name = ''Index'' then
          (case rcv of
             Some a \<Rightarrow>
               if a < length ss then ((ss[a := bumpHits (ss ! a)], writes ''index'' r), None)
               else ((ss, r), Some ''invalid memory address or nil pointer dereference'')
           | None \<Rightarrow> ((ss, r), Some ''invalid memory address or nil pointer dereference''))
        else ((ss, r), None))"

text \<open>The entry the factory makes for the example type at the address 0, in the cell \<open>c\<close>.\<close>

definition exampleEntry :: "addr \<Rightarrow> serviceMultiObjectInfo" where
  "exampleEntry c =
     \<lparr>rVal = (exampleType, c), methods = Map.empty,
      initFunc = Some \<lparr>recv = Some 0, mName = ''Init''\<rparr>,
      shutFunc = Some \<lparr>recv = Some 0, mName = ''Shut''\<rparr>\<rparr>"

definition exampleWorld :: world where
  "exampleWorld = initWorld [[(''hits'', 0)]]"

definition exampleRequest :: request where
  "exampleRequest = \<lparr>written = []\<rparr>"

section \<open>The loops of the binding functions\<close>

lemma find_snoc:
  "List.find P (xs @ [x]) =
     (case List.find P xs of Some y \<Rightarrow> Some y | None \<Rightarrow> if P x then Some x else None)"
  by (induction xs) auto

lemma objectBody_pointer:
  assumes "\<not> (objectRegisters mm x \<and> wantsAlias pat (fst x)) \<or>
           indexAlias (objectKey s pat ty (fst x)) \<noteq> None"
  shows "objectBody s pat (Pointer ty a) mm mw src x (ds, m) =
     ((ds @ (if objectMismatch mm x then [objectDiag mm ty x] else []),
       (\<lambda>k. if objectRegisters mm x \<and> k \<in> objectKeys s pat ty (fst x)
            then Some (routeItem ty a mw src (fst x)) else m k)), None)"
proof (cases x)
  case (Pair mn ft)
  show ?thesis
  proof (cases "objectExamines mm x")
    case False
    then show ?thesis using Pair
      by (auto simp: objectBody_def objectExamines_def objectRegisters_def objectMismatch_def
            selected_def split: option.splits)
  next
    case ex: True
    show ?thesis
    proof (cases ft)
      case (FuncOther d)
      then show ?thesis using Pair ex
        by (auto simp: objectBody_def objectExamines_def objectRegisters_def objectMismatch_def
              selected_def objectDiag_def definedAs_def split: option.splits)
    next
      case FuncRequest
      then have reg: "objectRegisters mm x" and nm: "\<not> objectMismatch mm x"
        using ex Pair by (simp_all add: objectRegisters_def objectMismatch_def)
      show ?thesis
      proof (cases "wantsAlias pat mn")
        case False
        then show ?thesis using Pair ex FuncRequest reg nm
          by (auto simp: objectBody_def objectExamines_def selected_def Let_def
                callMultiObjectMethods_def objectKeys_def objectKey_def routeItem_def
                wantsAlias_def split: option.splits intro!: ext)
      next
        case True
        with assms reg Pair obtain k where k: "indexAlias (objectKey s pat ty mn) = Some k"
          by auto
        then show ?thesis using Pair ex FuncRequest reg nm True
          by (auto simp: objectBody_def objectExamines_def selected_def Let_def
                callMultiObjectMethods_def objectKeys_def objectKey_def routeItem_def
                wantsAlias_def split: option.splits intro!: ext)
      qed
    qed
  qed
qed

lemma eachMethod_object_pointer:
  assumes "aliasFound s pat ty mm ms"
  shows "eachMethod (objectBody s pat (Pointer ty a) mm mw src) ms (ds, m) =
    ((ds @ map (objectDiag mm ty) (filter (objectMismatch mm) ms),
      (\<lambda>k. case List.find (\<lambda>x. objectRegisters mm x \<and> k \<in> objectKeys s pat ty (fst x)) (rev ms)
            of Some x \<Rightarrow> Some (routeItem ty a mw src (fst x)) | None \<Rightarrow> m k)), None)"
  using assms
proof (induction ms arbitrary: ds m)
  case Nil
  then show ?case by simp
next
  case (Cons x xs)
  from Cons.prems have hx: "\<not> (objectRegisters mm x \<and> wantsAlias pat (fst x)) \<or>
           indexAlias (objectKey s pat ty (fst x)) \<noteq> None"
    and hxs: "aliasFound s pat ty mm xs"
    by (simp_all add: aliasFound_def)
  show ?case
    unfolding eachMethod.simps objectBody_pointer [OF hx]
    by (auto simp add: Cons.IH [OF hxs] find_snoc split: option.splits intro!: ext)
qed

lemma objectBody_struct_skip:
  "\<not> objectRegisters mm x \<Longrightarrow>
   \<exists>st'. objectBody s pat (StructValue ty sv) mm mw src x st = (st', None)"
  by (cases x; cases st)
     (auto simp: objectBody_def objectRegisters_def objectExamines_def selected_def Let_def
           split: option.splits funcType.splits)

lemma objectBody_struct_panic:
  "objectRegisters mm x \<Longrightarrow>
   objectBody s pat (StructValue ty sv) mm mw src x st = (st, Some ''reflect: Elem of invalid type'')"
  by (cases x; cases st)
     (auto simp: objectBody_def objectRegisters_def objectExamines_def selected_def Let_def
           callMultiObjectMethods_def split: option.splits funcType.splits)

lemma restBody_struct_skip:
  "\<not> restRegisters s x \<Longrightarrow>
   \<exists>st'. restBody s pat (StructValue ty sv) mw src x st = (st', None)"
  by (cases x; cases st)
     (auto simp: restBody_def restRegisters_def isVerb_def Let_def split: funcType.splits)

lemma restBody_struct_panic:
  "restRegisters s x \<Longrightarrow>
   restBody s pat (StructValue ty sv) mw src x st = (st, Some ''reflect: Elem of invalid type'')"
  by (cases x; cases st)
     (auto simp: restBody_def restRegisters_def isVerb_def Let_def callMultiObjectMethods_def
           split: funcType.splits)

lemma eachMethod_panics:
  assumes skip: "\<And>x st. \<not> P x \<Longrightarrow> \<exists>st'. body x st = (st', None)"
    and panic: "\<And>x st. P x \<Longrightarrow> body x st = (st, Some e)"
    and some: "\<exists>x \<in> set ms. P x"
  shows "snd (eachMethod body ms st) = Some e"
  using some
proof (induction ms arbitrary: st)
  case Nil
  then show ?case by simp
next
  case (Cons x xs)
  show ?case
  proof (cases "P x")
    case True
    then show ?thesis by (simp add: panic)
  next
    case False
    then obtain st' where b: "body x st = (st', None)"
      using skip by blast
    from False Cons.prems have "\<exists>x \<in> set xs. P x" by auto
    then show ?thesis using Cons.IH [of st'] b by simp
  qed
qed

lemma finishBind_panic: "snd res = Some e \<Longrightarrow> snd (finishBind res) = Panicked e"
  by (cases res) (auto simp: finishBind_def split: prod.splits)

section \<open>Binding a struct value\<close>

text \<open>
  Claim C10. A binding function wraps a struct value in a pointer for its own enumeration
  only and hands the original object to \<open>callMultiObjectMethods\<close>, which evaluates
  \<open>t.Elem()\<close> on the struct type. So for every struct value, each of the three binding
  functions panics as soon as one method reaches registration.
\<close>
theorem struct_value_binding_panics:
  "(parsePattern s pattern = Inr parsed \<longrightarrow>
      (\<exists>meth \<in> set (typeMethods ty).
         objectRegisters (methodFilter (case method of [] \<Rightarrow> [] | m # _ \<Rightarrow> m)) meth) \<longrightarrow>
      snd (BindMultiObject s pattern (StructValue ty sv) method) =
        Panicked ''reflect: Elem of invalid type'') \<and>
   (MethodByName ty (TrimSpace name) = Some FuncRequest \<longrightarrow>
      snd (BindMultiObjectMethod s pattern (StructValue ty sv) name) =
        Panicked ''reflect: Elem of invalid type'') \<and>
   ((\<exists>meth \<in> set (typeMethods ty). restRegisters s meth) \<longrightarrow>
      snd (BindMultiObjectRest s pattern (StructValue ty sv)) =
        Panicked ''reflect: Elem of invalid type'')"
proof (intro conjI impI)
  assume p: "parsePattern s pattern = Inr parsed"
    and r: "\<exists>meth \<in> set (typeMethods ty).
         objectRegisters (methodFilter (case method of [] \<Rightarrow> [] | m # _ \<Rightarrow> m)) meth"
  let ?mm = "methodFilter (case method of [] \<Rightarrow> [] | m # _ \<Rightarrow> m)"
  have "snd (eachMethod (objectBody s (bindPattern s pattern parsed) (StructValue ty sv) ?mm [] [])
          (typeMethods ty) ([], Map.empty)) = Some ''reflect: Elem of invalid type''"
  proof (rule eachMethod_panics [where P = "objectRegisters ?mm"])
    show "\<exists>st'. objectBody s (bindPattern s pattern parsed) (StructValue ty sv) ?mm [] [] x st =
        (st', None)" if "\<not> objectRegisters ?mm x" for x st
      using that by (rule objectBody_struct_skip)
  qed (simp_all add: objectBody_struct_panic r)
  then show "snd (BindMultiObject s pattern (StructValue ty sv) method) =
        Panicked ''reflect: Elem of invalid type''"
    using p by (simp add: BindMultiObject_def doBindMultiObject_def finishBind_panic)
next
  assume "MethodByName ty (TrimSpace name) = Some FuncRequest"
  then show "snd (BindMultiObjectMethod s pattern (StructValue ty sv) name) =
        Panicked ''reflect: Elem of invalid type''"
    by (simp add: BindMultiObjectMethod_def doBindMultiObjectMethod_def
          callMultiObjectMethods_def)
next
  assume r: "\<exists>meth \<in> set (typeMethods ty). restRegisters s meth"
  have "snd (eachMethod (restBody s pattern (StructValue ty sv) [] [])
          (typeMethods ty) ([], Map.empty)) = Some ''reflect: Elem of invalid type''"
  proof (rule eachMethod_panics [where P = "restRegisters s"])
    show "\<exists>st'. restBody s pattern (StructValue ty sv) [] [] x st = (st', None)"
      if "\<not> restRegisters s x" for x st
      using that by (rule restBody_struct_skip)
  qed (simp_all add: restBody_struct_panic r)
  then show "snd (BindMultiObjectRest s pattern (StructValue ty sv)) =
        Panicked ''reflect: Elem of invalid type''"
    by (simp add: BindMultiObjectRest_def doBindMultiObjectRest_def finishBind_panic)
qed

theorem struct_value_binding_panics_witness:
  "snd (BindMultiObject exampleServer ''/user'' (StructValue exampleType [(''id'', 1)]) [''Get,Show'']) =
     Panicked ''reflect: Elem of invalid type'' \<and>
   snd (BindMultiObjectMethod exampleServer ''/user'' (StructValue exampleType [(''id'', 1)]) '' Post '') =
     Panicked ''reflect: Elem of invalid type'' \<and>
   snd (BindMultiObjectRest exampleServer ''/user'' (StructValue exampleType [(''id'', 1)])) =
     Panicked ''reflect: Elem of invalid type''"
proof -
  have p: "parsePattern exampleServer ''/user'' = Inr (''default'', ''ALL'', ''/user'')"
    by (simp add: exampleServer_def)
  have r1: "\<exists>meth \<in> set (typeMethods exampleType).
      objectRegisters (methodFilter (case [''Get,Show''] of [] \<Rightarrow> [] | m # _ \<Rightarrow> m)) meth"
    by (simp add: exampleType_def objectRegisters_def objectExamines_def selected_def
          methodFilter_def TrimSpace_def isSpace_def)
  have r2: "MethodByName exampleType (TrimSpace '' Post '') = Some FuncRequest"
    by (simp add: exampleType_def MethodByName_def TrimSpace_def isSpace_def)
  have r3: "\<exists>meth \<in> set (typeMethods exampleType). restRegisters exampleServer meth"
    by (simp add: exampleType_def exampleServer_def restRegisters_def isVerb_def ToUpper_def
          upperChar_def lowerLetters_def upperLetters_def)
  show ?thesis
    using struct_value_binding_panics
      [of exampleServer "''/user''" "(''default'', ''ALL'', ''/user'')" exampleType
          "[''Get,Show'']" "[(''id'', 1)]" "'' Post ''"] p r1 r2 r3
    by blast
qed

section \<open>Facts about the library functions\<close>

lemma lowerChar_slash: "lowerChar c = CHR ''/'' \<Longrightarrow> c = CHR ''/''"
  by (simp add: lowerChar_def upperLetters_def lowerLetters_def split: if_splits)

lemma slash_notin_ToLower:
  assumes "CHR ''/'' \<notin> set s"
  shows "CHR ''/'' \<notin> set (ToLower s)"
proof
  assume "CHR ''/'' \<in> set (ToLower s)"
  then obtain x where "x \<in> set s" and "lowerChar x = CHR ''/''"
    by (auto simp: ToLower_def)
  then show False using assms lowerChar_slash by blast
qed

lemma ToLower_append: "ToLower (a @ b) = ToLower a @ ToLower b"
  by (simp add: ToLower_def)

lemma length_ToLower: "length (ToLower s) = length s"
  by (simp add: ToLower_def)

lemma ToLower_index: "ToLower ''/index'' = ''/index''"
  by (simp add: ToLower_def lowerChar_def upperLetters_def lowerLetters_def)

lemma find_rev_upt:
  "p < n \<Longrightarrow> P p \<Longrightarrow> (\<And>q. p < q \<Longrightarrow> q < n \<Longrightarrow> \<not> P q) \<Longrightarrow>
   List.find P (rev [0 ..< n]) = Some p"
proof (induction n)
  case 0
  then show ?case by simp
next
  case (Suc n)
  show ?case
  proof (cases "p = n")
    case True
    then show ?thesis using Suc.prems by simp
  next
    case False
    then have "p < n" using Suc.prems by simp
    moreover have "\<not> P n" using Suc.prems(3) [of n] \<open>p < n\<close> by simp
    ultimately show ?thesis using Suc by simp
  qed
qed

lemma occursAt_head:
  assumes "occursAt (c # cs) hay q"
  shows "q < length hay \<and> hay ! q = c"
proof -
  from assms have t: "take (Suc (length cs)) (drop q hay) = c # cs"
    by (simp add: occursAt_def)
  then have ne: "drop q hay \<noteq> []" by auto
  then have q: "q < length hay" by simp
  from t ne have "hd (drop q hay) = c"
    by (cases "drop q hay") auto
  then show ?thesis using q by (simp add: hd_drop_conv_nth)
qed

lemma LastIndex_trailing:
  assumes dm: "CHR ''/'' \<notin> set ld"
  shows "LastIndex (lb @ ''/index'' @ ld) ''/index'' = Some (length lb)"
proof -
  let ?hay = "lb @ ''/index'' @ ld"
  let ?P = "occursAt ''/index'' ?hay"
  have len: "\<not> length ?hay < length ''/index''" by simp
  have n: "Suc (length ?hay - length ''/index'') = Suc (length lb + length ld)" by simp
  have here: "?P (length lb)" by (simp add: occursAt_def)
  have later: "\<not> ?P q" if "length lb < q" for q
  proof
    assume "?P q"
    then have q: "q < length ?hay" and c: "?hay ! q = CHR ''/''"
      using occursAt_head [of "CHR ''/''" "''index''" ?hay q] by simp_all
    from that obtain i where i: "q = length lb + Suc i"
      using less_imp_Suc_add [of "length lb" q] by auto
    from c i have "(''index'' @ ld) ! i = CHR ''/''"
      by (simp add: nth_append)
    moreover from q i have "i < length (''index'' @ ld)" by simp
    ultimately have "CHR ''/'' \<in> set (''index'' @ ld)"
      using nth_mem by metis
    with dm show False by simp
  qed
  have "List.find ?P (rev [0 ..< Suc (length lb + length ld)]) = Some (length lb)"
    by (rule find_rev_upt) (use here later in auto)
  then show ?thesis
    unfolding LastIndex_def using len n by simp
qed

lemma PosRI_trailing:
  assumes "ToLower seg = ''/index''" and "CHR ''/'' \<notin> set dm"
  shows "PosRI (base @ seg @ dm) ''/index'' = Some (length base)"
proof -
  from assms(1) have "seg \<noteq> []" by (auto simp: ToLower_def)
  then have ne: "base @ seg @ dm \<noteq> []" by simp
  have "LastIndex (ToLower base @ ''/index'' @ ToLower dm) ''/index'' = Some (length (ToLower base))"
    by (rule LastIndex_trailing) (rule slash_notin_ToLower [OF assms(2)])
  then show ?thesis
    using ne by (simp add: PosRI_def ToLower_append assms(1) ToLower_index length_ToLower)
qed

lemma indexAlias_trailing:
  assumes seg: "ToLower seg = ''/index''" and dm: "CHR ''/'' \<notin> set dm"
    and d: "dm = [] \<or> take 1 dm = ''@''" and b: "take 1 base \<noteq> ''@''"
  shows "indexAlias (base @ seg @ dm) = Some ((if base = [] then ''/'' else base) @ dm)"
proof -
  from seg have l: "length seg = 6"
    using length_ToLower [of seg] by simp
  have k: "take (length base) (base @ seg @ dm) @ drop (length base + 6) (base @ seg @ dm) = base @ dm"
    using l by simp
  have "indexKey (base @ seg @ dm) (length base) = (if base = [] then ''/'' else base) @ dm"
    unfolding indexKey_def k Let_def
    using d b by (cases base; cases dm) auto
  then show ?thesis
    by (simp add: indexAlias_def PosRI_trailing [OF seg dm])
qed

lemma Split_nonempty: "Split s c \<noteq> []"
  by (induction s) (auto split: list.splits)

lemma methodFilter_given:
  "(case methodFilter method of Some names \<Rightarrow> names \<noteq> [] | None \<Rightarrow> False) = (method \<noteq> [])"
  by (simp add: methodFilter_def Split_nonempty)

lemma objectDiag_level:
  "dLevel (objectDiag (methodFilter method) ty meth) = (if method = [] then LvDebug else LvError)"
  by (simp add: objectDiag_def methodFilter_given)

lemma EqualFold_refl: "EqualFold s s"
  by (simp add: EqualFold_def)

section \<open>The binding functions on a pointer\<close>

lemma doBindMultiObject_pointer:
  assumes "parsePattern s pattern = Inr parsed"
    and "aliasFound s (bindPattern s pattern parsed) ty (methodFilter method) (typeMethods ty)"
  shows "doBindMultiObject s pattern (Pointer ty a) method mw src =
    (map (objectDiag (methodFilter method) ty)
       (filter (objectMismatch (methodFilter method)) (typeMethods ty)),
     Bound (\<lambda>k. case List.find (\<lambda>x. objectRegisters (methodFilter method) x \<and>
                       k \<in> objectKeys s (bindPattern s pattern parsed) ty (fst x))
                    (rev (typeMethods ty))
                of Some x \<Rightarrow> Some (routeItem ty a mw src (fst x)) | None \<Rightarrow> None))"
  using assms
  by (simp add: doBindMultiObject_def eachMethod_object_pointer finishBind_def)

lemma find_Some_mem: "List.find P xs = Some x \<Longrightarrow> x \<in> set xs \<and> P x"
  by (auto simp: find_Some_iff)

lemma find_exists: "x \<in> set xs \<Longrightarrow> P x \<Longrightarrow> \<exists>y. List.find P xs = Some y"
  by (cases "List.find P xs") (auto simp: find_None_iff)

lemma find_unique:
  assumes "x \<in> set xs" and "P x" and "\<And>y. y \<in> set xs \<Longrightarrow> P y \<Longrightarrow> f y = f x"
  shows "\<exists>y. List.find P xs = Some y \<and> f y = f x"
proof -
  from assms(1,2) obtain y where y: "List.find P xs = Some y" using find_exists by metis
  then have "y \<in> set xs \<and> P y" by (rule find_Some_mem)
  with assms(3) y show ?thesis by auto
qed

lemma aliasFound_mem:
  "aliasFound s pat ty mm ms \<Longrightarrow> x \<in> set ms \<Longrightarrow> objectRegisters mm x \<Longrightarrow>
   wantsAlias pat (fst x) \<Longrightarrow> \<exists>k. indexAlias (objectKey s pat ty (fst x)) = Some k"
  by (auto simp: aliasFound_def list_all_iff)

lemma restBody_pointer:
  "restBody s pat (Pointer ty a) mw src x (ds, m) =
     ((ds @ (if isVerb s (fst x) \<and> snd x \<noteq> FuncRequest then [restDiag ty x] else []),
       (\<lambda>k. if restRegisters s x \<and> k = restKey s pat ty (fst x)
            then Some (routeItem ty a mw src (fst x)) else m k)), None)"
  by (cases x; cases "snd x")
     (auto simp: restBody_def isVerb_def restRegisters_def restDiag_def definedAs_def restKey_def
        routeItem_def callMultiObjectMethods_def Let_def intro!: ext)

lemma eachMethod_rest_pointer:
  "eachMethod (restBody s pat (Pointer ty a) mw src) ms (ds, m) =
    ((ds @ map (restDiag ty) (filter (\<lambda>x. isVerb s (fst x) \<and> snd x \<noteq> FuncRequest) ms),
      (\<lambda>k. case List.find (\<lambda>x. restRegisters s x \<and> k = restKey s pat ty (fst x)) (rev ms)
            of Some x \<Rightarrow> Some (routeItem ty a mw src (fst x)) | None \<Rightarrow> m k)), None)"
proof (induction ms arbitrary: ds m)
  case Nil
  then show ?case by simp
next
  case (Cons x xs)
  show ?case
    unfolding eachMethod.simps restBody_pointer
    by (auto simp add: Cons.IH find_snoc split: option.splits intro!: ext)
qed

lemma doBindMultiObjectRest_pointer:
  "doBindMultiObjectRest s pattern (Pointer ty a) mw src =
    (map (restDiag ty) (filter (\<lambda>x. isVerb s (fst x) \<and> snd x \<noteq> FuncRequest) (typeMethods ty)),
     Bound (\<lambda>k. case List.find (\<lambda>x. restRegisters s x \<and> k = restKey s pattern ty (fst x))
                    (rev (typeMethods ty))
                of Some x \<Rightarrow> Some (routeItem ty a mw src (fst x)) | None \<Rightarrow> None))"
  by (simp add: doBindMultiObjectRest_def eachMethod_rest_pointer finishBind_def)

section \<open>The example inputs evaluated\<close>

lemmas char_case_defs = ToLower_def ToUpper_def lowerChar_def upperChar_def upperLetters_def
  lowerLetters_def

lemma example_methods:
  "typeMethods exampleType =
     [(''Get'', FuncRequest), (''Index'', FuncRequest), (''Init'', FuncRequest),
      (''Post'', FuncRequest), (''Show'', FuncOther ''func()''), (''Shut'', FuncRequest)]"
  by (simp add: exampleType_def)

lemma example_parse:
  "parsePattern exampleServer ''/user'' = Inr (''default'', ''ALL'', ''/user'')"
  by (simp add: exampleServer_def)

lemma example_pattern:
  "bindPattern exampleServer ''/user'' (''default'', ''ALL'', ''/user'') = ''/user@DEFAULT''"
  by (simp add: bindPattern_def exampleServer_def EqualFold_def char_case_defs)

lemma example_no_builtin: "\<not> hasBuiltIn ''/user@DEFAULT''"
  by (simp add: builtInHere_def)

lemma example_key:
  "objectKey exampleServer ''/user@DEFAULT'' exampleType ''Get'' = ''/user/get@DEFAULT''"
  "objectKey exampleServer ''/user@DEFAULT'' exampleType ''Index'' = ''/user/index@DEFAULT''"
  "objectKey exampleServer ''/user@DEFAULT'' exampleType ''Post'' = ''/user/post@DEFAULT''"
  by (simp_all add: objectKey_def exampleServer_def exampleMerge_def Replace_def LastIndex_def
        occursAt_def exampleType_def char_case_defs)

lemma example_alias: "indexAlias ''/user/index@DEFAULT'' = Some ''/user@DEFAULT''"
  using indexAlias_trailing [of "''/index''" "''@DEFAULT''" "''/user''"]
  by (simp add: char_case_defs)

lemma example_filter: "methodFilter ''Show, Get'' = Some [''Show'', ''Get'']"
  by (simp add: methodFilter_def TrimSpace_def isSpace_def)

lemma example_no_filter: "methodFilter [] = None"
  by (simp add: methodFilter_def)

lemma example_wants:
  "wantsAlias ''/user@DEFAULT'' ''Index''" "\<not> wantsAlias ''/user@DEFAULT'' ''Get''"
  "\<not> wantsAlias ''/user@DEFAULT'' ''Post''"
  by (simp_all add: wantsAlias_def EqualFold_def char_case_defs builtInHere_def)

lemma example_found_filter:
  "aliasFound exampleServer ''/user@DEFAULT'' exampleType (Some [''Show'', ''Get''])
     (typeMethods exampleType)"
  by (simp add: aliasFound_def example_methods objectRegisters_def objectExamines_def
        selected_def example_wants)

lemma example_found_all:
  "aliasFound exampleServer ''/user@DEFAULT'' exampleType None (typeMethods exampleType)"
  by (simp add: aliasFound_def example_methods objectRegisters_def objectExamines_def
        selected_def example_wants example_key example_alias)

lemma example_verbs:
  "isVerb exampleServer ''Get''" "isVerb exampleServer ''Post''"
  "\<not> isVerb exampleServer ''Index''" "\<not> isVerb exampleServer ''Init''"
  "\<not> isVerb exampleServer ''Show''" "\<not> isVerb exampleServer ''Shut''"
  by (simp_all add: isVerb_def exampleServer_def char_case_defs)

lemma example_rest_key:
  "restKey exampleServer ''/user'' exampleType ''Get'' = ''Get:/user''"
  "restKey exampleServer ''/user'' exampleType ''Post'' = ''Post:/user''"
  by (simp_all add: restKey_def exampleServer_def exampleMerge_def Replace_def LastIndex_def
        occursAt_def exampleType_def char_case_defs)

lemma example_registers:
  "{x \<in> set (typeMethods exampleType). objectRegisters None x} =
     {(''Get'', FuncRequest), (''Index'', FuncRequest), (''Post'', FuncRequest)}"
  by code_simp

lemma example_root:
  "parsePattern exampleServer ''/'' = Inr (''default'', ''ALL'', ''/'')"
  "bindPattern exampleServer ''/'' (''default'', ''ALL'', ''/'') = ''/@DEFAULT''"
  "objectKey exampleServer ''/@DEFAULT'' exampleType ''Index'' = ''/index@DEFAULT''"
  "\<not> hasBuiltIn ''/@DEFAULT''"
  by code_simp+

lemma example_root_alias: "indexAlias ''/index@DEFAULT'' = Some ''/@DEFAULT''"
  by code_simp

lemma example_root_found:
  "aliasFound exampleServer ''/@DEFAULT'' exampleType None (typeMethods exampleType)"
  by code_simp

lemma example_vars:
  "parsePattern exampleServer ''/{.struct}/{.method}'' =
     Inr (''default'', ''ALL'', ''/{.struct}/{.method}'')"
  "bindPattern exampleServer ''/{.struct}/{.method}''
     (''default'', ''ALL'', ''/{.struct}/{.method}'') = ''/{.struct}/{.method}@DEFAULT''"
  "objectKey exampleServer ''/{.struct}/{.method}@DEFAULT'' exampleType ''Get'' =
     ''/user/get@DEFAULT''"
  "objectKey exampleServer ''/{.struct}/{.method}@DEFAULT'' exampleType ''Index'' =
     ''/user/index@DEFAULT''"
  "objectKey exampleServer ''/{.struct}/{.method}@DEFAULT'' exampleType ''Post'' =
     ''/user/post@DEFAULT''"
  by code_simp+

lemma example_vars_builtin: "hasBuiltIn ''/{.struct}/{.method}@DEFAULT''"
  by code_simp

lemma example_vars_found:
  "aliasFound exampleServer ''/{.struct}/{.method}@DEFAULT'' exampleType None
     (typeMethods exampleType)"
  by code_simp

lemma example_selected: "selected None ''Index''"
  by code_simp

lemma example_index: "(''Index'', FuncRequest) \<in> set (typeMethods exampleType)"
  by code_simp

section \<open>Single-method mode\<close>

text \<open>
  Claim C3, as amended. In single-method mode a method that the type does not have ends
  the call with a fatal diagnostic; a method that exists with a type other than
  \<open>func(*Request)\<close> ends it with a diagnostic of level error, not fatal. In both
  cases the call returns before \<open>bindHandlerByMap\<close>: no route is registered.
\<close>

theorem single_method_rejected:
  "(MethodByName (typeOf object) (TrimSpace name) = None \<longrightarrow>
      doBindMultiObjectMethod s pattern object name mw src =
        ([\<lparr>dLevel = LvFatal, dText = ''invalid method name: '' @ TrimSpace name\<rparr>], Aborted)) \<and>
   (MethodByName (typeOf object) (TrimSpace name) = Some (FuncOther defined) \<longrightarrow>
      doBindMultiObjectMethod s pattern object name mw src =
        ([\<lparr>dLevel = LvError,
           dText = invalidRouteMethod (typeOf object) (TrimSpace name) defined\<rparr>], Aborted))"
  by (simp add: doBindMultiObjectMethod_def)

theorem single_method_rejected_witness:
  "BindMultiObjectMethod exampleServer ''/user'' (Pointer exampleType 0) ''Nope'' =
     ([\<lparr>dLevel = LvFatal, dText = ''invalid method name: Nope''\<rparr>], Aborted) \<and>
   BindMultiObjectMethod exampleServer ''/user'' (Pointer exampleType 0) ''Show'' =
     ([\<lparr>dLevel = LvError,
        dText = invalidRouteMethod exampleType ''Show'' ''func()''\<rparr>], Aborted)"
proof -
  have t1: "TrimSpace ''Nope'' = ''Nope''" and t2: "TrimSpace ''Show'' = ''Show''"
    by (simp_all add: TrimSpace_def isSpace_def)
  have a: "MethodByName (typeOf (Pointer exampleType 0)) (TrimSpace ''Nope'') = None"
    by (simp add: t1 MethodByName_def exampleType_def)
  have b: "MethodByName (typeOf (Pointer exampleType 0)) (TrimSpace ''Show'') =
      Some (FuncOther ''func()'')"
    by (simp add: t2 MethodByName_def exampleType_def)
  show ?thesis
    using single_method_rejected
        [where object = "Pointer exampleType 0" and name = "''Nope''" and s = exampleServer
           and pattern = "''/user''" and mw = "[]" and src = "[]"] a
      single_method_rejected
        [where object = "Pointer exampleType 0" and name = "''Show''" and s = exampleServer
           and pattern = "''/user''" and mw = "[]" and src = "[]" and defined = "''func()''"] b
    by (simp add: BindMultiObjectMethod_def t1 t2)
qed

text \<open>
  Claim C3 as stated fails: binding the method \<open>Show\<close> of the example type, of type
  \<open>func()\<close>, emits one diagnostic, of level error.
\<close>

theorem single_method_mismatch_not_fatal:
  "map dLevel (fst (BindMultiObjectMethod exampleServer ''/user'' (Pointer exampleType 0) ''Show''))
     = [LvError]"
  by (simp add: BindMultiObjectMethod_def doBindMultiObjectMethod_def MethodByName_def
        exampleType_def TrimSpace_def isSpace_def Let_def)

section \<open>Whole-object mode\<close>

text \<open>
  Claim C4, as amended. Binding a pointer in whole-object mode emits one diagnostic for
  each examined method that fails the signature check: of level error when the caller
  gave a list of method names, of level debug when it gave none, and never fatal. The
  call goes on to \<open>bindHandlerByMap\<close>; the key of every method that reaches
  registration is in the map, and every entry of the map dispatches such a method.
\<close>

theorem whole_object_mismatch_logged:
  assumes "parsePattern s pattern = Inr parsed"
    and "aliasFound s (bindPattern s pattern parsed) ty (methodFilter method) (typeMethods ty)"
  shows "fst (doBindMultiObject s pattern (Pointer ty a) method mw src) =
           map (objectDiag (methodFilter method) ty)
             (filter (objectMismatch (methodFilter method)) (typeMethods ty)) \<and>
         (\<forall>meth. dLevel (objectDiag (methodFilter method) ty meth) =
                   (if method = [] then LvDebug else LvError)) \<and>
         (\<exists>m. snd (doBindMultiObject s pattern (Pointer ty a) method mw src) = Bound m \<and>
            (\<forall>meth \<in> set (typeMethods ty). objectRegisters (methodFilter method) meth \<longrightarrow>
               objectKey s (bindPattern s pattern parsed) ty (fst meth) \<in> dom m) \<and>
            (\<forall>k h. m k = Some h \<longrightarrow>
               (\<exists>meth \<in> set (typeMethods ty). objectRegisters (methodFilter method) meth \<and>
                  h = routeItem ty a mw src (fst meth))))"
proof -
  let ?mm = "methodFilter method" and ?pat = "bindPattern s pattern parsed"
  let ?P = "\<lambda>k x. objectRegisters ?mm x \<and> k \<in> objectKeys s ?pat ty (fst x)"
  let ?m = "\<lambda>k. case List.find (?P k) (rev (typeMethods ty))
                of Some x \<Rightarrow> Some (routeItem ty a mw src (fst x)) | None \<Rightarrow> None"
  note eq = doBindMultiObject_pointer [OF assms, of a mw src]
  have reg: "objectKey s ?pat ty (fst meth) \<in> dom ?m"
    if "meth \<in> set (typeMethods ty)" and "objectRegisters ?mm meth" for meth
  proof -
    have "\<exists>y. List.find (?P (objectKey s ?pat ty (fst meth))) (rev (typeMethods ty)) = Some y"
      by (rule find_exists [of meth]) (use that in \<open>auto simp: objectKeys_def\<close>)
    then show ?thesis by (auto simp: dom_def)
  qed
  have only: "\<exists>meth \<in> set (typeMethods ty). objectRegisters ?mm meth \<and>
                  h = routeItem ty a mw src (fst meth)"
    if "?m k = Some h" for k h
  proof -
    from that obtain x where "List.find (?P k) (rev (typeMethods ty)) = Some x"
      and "h = routeItem ty a mw src (fst x)"
      by (auto split: option.splits)
    then show ?thesis using find_Some_mem [of "?P k" "rev (typeMethods ty)" x] by auto
  qed
  show ?thesis
    unfolding eq fst_conv snd_conv
    using reg only by (auto simp: objectDiag_level)
qed

theorem whole_object_mismatch_logged_witness:
  "map dLevel (fst (doBindMultiObject exampleServer ''/user'' (Pointer exampleType 0)
      ''Show, Get'' [] [])) = [LvError] \<and>
   (\<exists>m. snd (doBindMultiObject exampleServer ''/user'' (Pointer exampleType 0)
      ''Show, Get'' [] []) = Bound m \<and> ''/user/get@DEFAULT'' \<in> dom m) \<and>
   map dLevel (fst (doBindMultiObject exampleServer ''/user'' (Pointer exampleType 0)
      [] [] [])) = [LvDebug] \<and>
   (\<exists>m. snd (doBindMultiObject exampleServer ''/user'' (Pointer exampleType 0)
      [] [] []) = Bound m \<and> ''/user/post@DEFAULT'' \<in> dom m)"
proof -
  have f: "aliasFound exampleServer
      (bindPattern exampleServer ''/user'' (''default'', ''ALL'', ''/user'')) exampleType
      (methodFilter ''Show, Get'') (typeMethods exampleType)"
    by (simp add: example_pattern example_filter example_found_filter)
  have g: "aliasFound exampleServer
      (bindPattern exampleServer ''/user'' (''default'', ''ALL'', ''/user'')) exampleType
      (methodFilter []) (typeMethods exampleType)"
    by (simp add: example_pattern methodFilter_def example_found_all)
  have mismatch1: "filter (objectMismatch (Some [''Show'', ''Get''])) (typeMethods exampleType) =
      [(''Show'', FuncOther ''func()'')]"
    by (simp add: example_methods objectMismatch_def objectExamines_def selected_def)
  have mismatch2: "filter (objectMismatch None) (typeMethods exampleType) =
      [(''Show'', FuncOther ''func()'')]"
    by (simp add: example_methods objectMismatch_def objectExamines_def selected_def)
  have get: "(''Get'', FuncRequest) \<in> set (typeMethods exampleType)"
    "objectRegisters (Some [''Show'', ''Get'']) (''Get'', FuncRequest)"
    and post: "(''Post'', FuncRequest) \<in> set (typeMethods exampleType)"
    "objectRegisters None (''Post'', FuncRequest)"
    by (simp_all add: example_methods objectRegisters_def objectExamines_def selected_def)
  note t1 = whole_object_mismatch_logged [OF example_parse f, of 0 "[]" "[]",
      unfolded example_filter example_pattern mismatch1]
  note t2 = whole_object_mismatch_logged [OF example_parse g, of 0 "[]" "[]",
      unfolded example_no_filter example_pattern mismatch2]
  have a: "map dLevel (fst (doBindMultiObject exampleServer ''/user'' (Pointer exampleType 0)
      ''Show, Get'' [] [])) = [LvError]"
    using t1 by (simp add: objectDiag_def)
  from t1 obtain m where m: "snd (doBindMultiObject exampleServer ''/user''
        (Pointer exampleType 0) ''Show, Get'' [] []) = Bound m"
    and all: "\<forall>meth \<in> set (typeMethods exampleType).
        objectRegisters (Some [''Show'', ''Get'']) meth \<longrightarrow>
        objectKey exampleServer ''/user@DEFAULT'' exampleType (fst meth) \<in> dom m"
    by blast
  from all get have "''/user/get@DEFAULT'' \<in> dom m"
    using example_key(1) by force
  with m have b: "\<exists>m. snd (doBindMultiObject exampleServer ''/user'' (Pointer exampleType 0)
      ''Show, Get'' [] []) = Bound m \<and> ''/user/get@DEFAULT'' \<in> dom m"
    by blast
  have c: "map dLevel (fst (doBindMultiObject exampleServer ''/user'' (Pointer exampleType 0)
      [] [] [])) = [LvDebug]"
    using t2 by (simp add: objectDiag_def)
  from t2 obtain m' where m': "snd (doBindMultiObject exampleServer ''/user''
        (Pointer exampleType 0) [] [] []) = Bound m'"
    and all': "\<forall>meth \<in> set (typeMethods exampleType).
        objectRegisters None meth \<longrightarrow>
        objectKey exampleServer ''/user@DEFAULT'' exampleType (fst meth) \<in> dom m'"
    by blast
  from all' post have "''/user/post@DEFAULT'' \<in> dom m'"
    using example_key(3) by force
  with m' have d: "\<exists>m. snd (doBindMultiObject exampleServer ''/user'' (Pointer exampleType 0)
      [] [] []) = Bound m \<and> ''/user/post@DEFAULT'' \<in> dom m"
    by blast
  from a b c d show ?thesis by blast
qed

text \<open>
  Claim C4 as stated fails: the method \<open>Show\<close>, requested by name, yields a
  diagnostic of level error.
\<close>

theorem requested_mismatch_not_fatal:
  "map dLevel (fst (BindMultiObject exampleServer ''/user'' (Pointer exampleType 0) [''Show'']))
     = [LvError]"
proof -
  have flt: "methodFilter ''Show'' = Some [''Show'']"
    by (simp add: methodFilter_def TrimSpace_def isSpace_def)
  have f: "aliasFound exampleServer
      (bindPattern exampleServer ''/user'' (''default'', ''ALL'', ''/user'')) exampleType
      (methodFilter ''Show'') (typeMethods exampleType)"
    by (simp add: example_pattern flt aliasFound_def example_methods objectRegisters_def
          objectExamines_def selected_def)
  have mismatch: "filter (objectMismatch (Some [''Show''])) (typeMethods exampleType) =
      [(''Show'', FuncOther ''func()'')]"
    by (simp add: example_methods objectMismatch_def objectExamines_def selected_def)
  show ?thesis
    by (simp add: BindMultiObject_def doBindMultiObject_pointer [OF example_parse f] flt mismatch
          objectDiag_def)
qed

text \<open>
  Claim C5. When a method named \<open>Index\<close> of a pointer is bound in whole-object mode,
  its key is registered. If the pattern has no built-in variable, the second key
  \<open>indexAlias key\<close> is registered too; both keys hold the entry of \<open>Index\<close> unless
  another method writes one of them; and where the key ends in the path segment
  \<open>/index\<close> (before an optional domain part) the second key is the key without that
  segment, with \<open>/\<close> for an empty path. If the pattern has a built-in variable, only
  the first keys of the registered methods are in the map.
\<close>

theorem index_alias_registered:
  assumes parse: "parsePattern s pattern = Inr parsed"
    and pat: "pat = bindPattern s pattern parsed"
    and mm: "mm = methodFilter method"
    and key: "key = objectKey s pat ty ''Index''"
    and found: "aliasFound s pat ty mm (typeMethods ty)"
    and idx: "(''Index'', FuncRequest) \<in> set (typeMethods ty)"
    and sel: "selected mm ''Index''"
  shows "\<exists>m. snd (doBindMultiObject s pattern (Pointer ty a) method mw src) = Bound m \<and>
     key \<in> dom m \<and>
     (if hasBuiltIn pat
      then dom m = (\<lambda>x. objectKey s pat ty (fst x)) `
                     {x \<in> set (typeMethods ty). objectRegisters mm x}
      else \<exists>k. indexAlias key = Some k \<and> k \<in> dom m \<and>
             ((\<forall>x \<in> set (typeMethods ty). objectRegisters mm x \<and> fst x \<noteq> ''Index'' \<longrightarrow>
                 key \<notin> objectKeys s pat ty (fst x) \<and> k \<notin> objectKeys s pat ty (fst x)) \<longrightarrow>
              m key = Some (routeItem ty a mw src ''Index'') \<and>
              m k = Some (routeItem ty a mw src ''Index'')) \<and>
             (\<forall>base seg dm.
                 key = base @ seg @ dm \<and> ToLower seg = ''/index'' \<and> CHR ''/'' \<notin> set dm \<and>
                 (dm = [] \<or> take 1 dm = ''@'') \<and> take 1 base \<noteq> ''@'' \<longrightarrow>
                 k = (if base = [] then ''/'' else base) @ dm))"
    (is "\<exists>m. _ = Bound m \<and> ?Q m")
proof -
  let ?ms = "typeMethods ty"
  let ?P = "\<lambda>k x. objectRegisters mm x \<and> k \<in> objectKeys s pat ty (fst x)"
  let ?m = "\<lambda>k. case List.find (?P k) (rev ?ms)
                of Some x \<Rightarrow> Some (routeItem ty a mw src (fst x)) | None \<Rightarrow> None"
  let ?I = "(''Index'', FuncRequest)"
  have eq: "snd (doBindMultiObject s pattern (Pointer ty a) method mw src) = Bound ?m"
    using doBindMultiObject_pointer [OF parse found [unfolded pat mm], where a = a and mw = mw
        and src = src]
    by (simp add: pat mm)
  have regI: "objectRegisters mm ?I"
    using sel by (simp add: objectRegisters_def objectExamines_def)
  have inI: "?I \<in> set (rev ?ms)" using idx by simp
  have dom_if: "k \<in> dom ?m" if "k \<in> objectKeys s pat ty ''Index''" for k
  proof -
    have "\<exists>y. List.find (?P k) (rev ?ms) = Some y"
      by (rule find_exists [OF inI]) (use regI that in simp)
    then show ?thesis by (auto simp: dom_def)
  qed
  have keyI: "key \<in> objectKeys s pat ty ''Index''"
    by (simp add: key objectKeys_def)
  have k1: "key \<in> dom ?m" by (rule dom_if [OF keyI])
  have unique: "?m k = Some (routeItem ty a mw src ''Index'')"
    if "k \<in> objectKeys s pat ty ''Index''"
      and "\<And>x. x \<in> set ?ms \<Longrightarrow> objectRegisters mm x \<Longrightarrow> fst x \<noteq> ''Index'' \<Longrightarrow>
            k \<notin> objectKeys s pat ty (fst x)" for k
  proof -
    have "\<exists>y. List.find (?P k) (rev ?ms) = Some y \<and> fst y = fst ?I"
    proof (rule find_unique [OF inI])
      show "?P k ?I" using regI that(1) by simp
      show "fst y = fst ?I" if "y \<in> set (rev ?ms)" and "?P k y" for y
        using that \<open>\<And>x. x \<in> set ?ms \<Longrightarrow> objectRegisters mm x \<Longrightarrow> fst x \<noteq> ''Index'' \<Longrightarrow>
            k \<notin> objectKeys s pat ty (fst x)\<close> [of y] by auto
    qed
    then show ?thesis by auto
  qed
  show ?thesis
  proof (cases "hasBuiltIn pat")
    case True
    then have keys: "objectKeys s pat ty n = {objectKey s pat ty n}" for n
      by (simp add: objectKeys_def wantsAlias_def)
    have "dom ?m = (\<lambda>x. objectKey s pat ty (fst x)) ` {x \<in> set ?ms. objectRegisters mm x}"
    proof (intro set_eqI iffI)
      fix k assume "k \<in> dom ?m"
      then obtain x where "List.find (?P k) (rev ?ms) = Some x"
        by (auto split: option.splits)
      then have "x \<in> set ?ms \<and> ?P k x"
        using find_Some_mem [of "?P k" "rev ?ms" x] by simp
      then show "k \<in> (\<lambda>x. objectKey s pat ty (fst x)) ` {x \<in> set ?ms. objectRegisters mm x}"
        by (auto simp: keys)
    next
      fix k assume "k \<in> (\<lambda>x. objectKey s pat ty (fst x)) ` {x \<in> set ?ms. objectRegisters mm x}"
      then obtain x where "x \<in> set (rev ?ms)" and "?P k x" by (auto simp: keys)
      then have "\<exists>y. List.find (?P k) (rev ?ms) = Some y"
        by (rule find_exists)
      then show "k \<in> dom ?m" by (auto simp: dom_def)
    qed
    with True k1 have "?Q ?m" by (simp only: if_True simp_thms)
    with eq show ?thesis by blast
  next
    case False
    then have w: "wantsAlias pat (fst ?I)"
      by (simp add: wantsAlias_def EqualFold_refl)
    from aliasFound_mem [OF found idx regI w]
    obtain k where k: "indexAlias key = Some k" by (auto simp: key)
    then have kI: "k \<in> objectKeys s pat ty ''Index''"
      using w by (simp add: objectKeys_def key)
    have k2: "k \<in> dom ?m" by (rule dom_if [OF kI])
    have same: "?m key = Some (routeItem ty a mw src ''Index'') \<and>
        ?m k = Some (routeItem ty a mw src ''Index'')"
      if "\<forall>x \<in> set ?ms. objectRegisters mm x \<and> fst x \<noteq> ''Index'' \<longrightarrow>
            key \<notin> objectKeys s pat ty (fst x) \<and> k \<notin> objectKeys s pat ty (fst x)"
      using unique [OF keyI] unique [OF kI] that by blast
    have shape: "k = (if base = [] then ''/'' else base) @ dm"
      if "key = base @ seg @ dm \<and> ToLower seg = ''/index'' \<and> CHR ''/'' \<notin> set dm \<and>
          (dm = [] \<or> take 1 dm = ''@'') \<and> take 1 base \<noteq> ''@''" for base seg dm
      using that k indexAlias_trailing [of seg dm base] by auto
    have "\<exists>k. indexAlias key = Some k \<and> k \<in> dom ?m \<and>
             ((\<forall>x \<in> set (typeMethods ty). objectRegisters mm x \<and> fst x \<noteq> ''Index'' \<longrightarrow>
                 key \<notin> objectKeys s pat ty (fst x) \<and> k \<notin> objectKeys s pat ty (fst x)) \<longrightarrow>
              ?m key = Some (routeItem ty a mw src ''Index'') \<and>
              ?m k = Some (routeItem ty a mw src ''Index'')) \<and>
             (\<forall>base seg dm.
                 key = base @ seg @ dm \<and> ToLower seg = ''/index'' \<and> CHR ''/'' \<notin> set dm \<and>
                 (dm = [] \<or> take 1 dm = ''@'') \<and> take 1 base \<noteq> ''@'' \<longrightarrow>
                 k = (if base = [] then ''/'' else base) @ dm)"
      using k k2 same shape by blast
    with False k1 have "?Q ?m" by (simp only: if_False)
    with eq show ?thesis by blast
  qed
qed

theorem index_alias_registered_witness:
  "(\<exists>m. snd (doBindMultiObject exampleServer ''/user'' (Pointer exampleType 0) [] [] []) =
        Bound m \<and>
      m ''/user/index@DEFAULT'' = Some (routeItem exampleType 0 [] [] ''Index'') \<and>
      m ''/user@DEFAULT'' = Some (routeItem exampleType 0 [] [] ''Index'')) \<and>
   (\<exists>m. snd (doBindMultiObject exampleServer ''/'' (Pointer exampleType 0) [] [] []) =
        Bound m \<and> ''/index@DEFAULT'' \<in> dom m \<and> ''/@DEFAULT'' \<in> dom m) \<and>
   (\<exists>m. snd (doBindMultiObject exampleServer ''/{.struct}/{.method}'' (Pointer exampleType 0)
        [] [] []) = Bound m \<and>
      dom m = {''/user/get@DEFAULT'', ''/user/index@DEFAULT'', ''/user/post@DEFAULT''})"
proof -
  let ?item = "routeItem exampleType 0 [] [] ''Index''"
  have others: "\<forall>x \<in> set (typeMethods exampleType).
      objectRegisters None x \<and> fst x \<noteq> ''Index'' \<longrightarrow>
      ''/user/index@DEFAULT'' \<notin> objectKeys exampleServer ''/user@DEFAULT'' exampleType (fst x) \<and>
      ''/user@DEFAULT'' \<notin> objectKeys exampleServer ''/user@DEFAULT'' exampleType (fst x)"
    by (simp add: example_methods objectKeys_def example_wants example_key
          objectRegisters_def objectExamines_def selected_def)
  note t1 = index_alias_registered [OF example_parse example_pattern [symmetric]
        example_no_filter [symmetric] example_key(2) [symmetric] example_found_all
        example_index example_selected, of 0 "[]" "[]"]
  from t1 obtain m k where m: "snd (doBindMultiObject exampleServer ''/user''
        (Pointer exampleType 0) [] [] []) = Bound m"
    and k: "indexAlias ''/user/index@DEFAULT'' = Some k"
    and same: "(\<forall>x \<in> set (typeMethods exampleType).
        objectRegisters None x \<and> fst x \<noteq> ''Index'' \<longrightarrow>
        ''/user/index@DEFAULT'' \<notin> objectKeys exampleServer ''/user@DEFAULT'' exampleType (fst x) \<and>
        k \<notin> objectKeys exampleServer ''/user@DEFAULT'' exampleType (fst x)) \<longrightarrow>
        m ''/user/index@DEFAULT'' = Some ?item \<and> m k = Some ?item"
    unfolding if_not_P [OF example_no_builtin]
    by (elim exE conjE) (rule that; assumption)
  from k have k': "k = ''/user@DEFAULT''" by (simp add: example_alias)
  have "m ''/user/index@DEFAULT'' = Some ?item \<and> m ''/user@DEFAULT'' = Some ?item"
    by (rule mp [OF same [unfolded k'] others])
  with m have a: "\<exists>m. snd (doBindMultiObject exampleServer ''/user'' (Pointer exampleType 0)
        [] [] []) = Bound m \<and>
      m ''/user/index@DEFAULT'' = Some ?item \<and> m ''/user@DEFAULT'' = Some ?item"
    by blast
  note t2 = index_alias_registered [OF example_root(1) example_root(2) [symmetric]
        example_no_filter [symmetric] example_root(3) [symmetric] example_root_found
        example_index example_selected, of 0 "[]" "[]"]
  from t2 obtain m2 k2 where m2: "snd (doBindMultiObject exampleServer ''/''
        (Pointer exampleType 0) [] [] []) = Bound m2"
    and d2: "''/index@DEFAULT'' \<in> dom m2"
    and k2: "indexAlias ''/index@DEFAULT'' = Some k2" and kd2: "k2 \<in> dom m2"
    unfolding if_not_P [OF example_root(4)]
    by (elim exE conjE) (rule that; assumption)
  from k2 have "k2 = ''/@DEFAULT''" by (simp add: example_root_alias)
  with m2 d2 kd2 have b: "\<exists>m. snd (doBindMultiObject exampleServer ''/''
        (Pointer exampleType 0) [] [] []) = Bound m \<and>
      ''/index@DEFAULT'' \<in> dom m \<and> ''/@DEFAULT'' \<in> dom m"
    by blast
  note t3 = index_alias_registered [OF example_vars(1) example_vars(2) [symmetric]
        example_no_filter [symmetric] example_vars(4) [symmetric] example_vars_found
        example_index example_selected, of 0 "[]" "[]"]
  from t3 obtain m3 where m3: "snd (doBindMultiObject exampleServer ''/{.struct}/{.method}''
        (Pointer exampleType 0) [] [] []) = Bound m3"
    and d3: "dom m3 = (\<lambda>x. objectKey exampleServer ''/{.struct}/{.method}@DEFAULT'' exampleType
        (fst x)) ` {x \<in> set (typeMethods exampleType). objectRegisters None x}"
    unfolding if_P [OF example_vars_builtin]
    by (elim exE conjE) (rule that; assumption)
  from d3 have "dom m3 = {''/user/get@DEFAULT'', ''/user/index@DEFAULT'', ''/user/post@DEFAULT''}"
    unfolding example_registers by (simp add: example_vars)
  with m3 have c: "\<exists>m. snd (doBindMultiObject exampleServer ''/{.struct}/{.method}''
        (Pointer exampleType 0) [] [] []) = Bound m \<and>
      dom m = {''/user/get@DEFAULT'', ''/user/index@DEFAULT'', ''/user/post@DEFAULT''}"
    by blast
  from a b c show ?thesis by (intro conjI)
qed

section \<open>REST mode\<close>

text \<open>
  Claim C6. In REST mode the loop leaves its state unchanged at a method whose
  upper-cased name is no key of \<open>methodsMap\<close>; for a pointer, diagnostics arise only
  for verb-named methods that fail the signature check, the map handed to
  \<open>bindHandlerByMap\<close> has exactly the keys of the verb-named conforming methods, and
  each key is built from the pattern prefixed with the method name and a colon, with
  nothing appended to the path.
\<close>

theorem rest_binds_verbs_only:
  "(\<not> isVerb s (fst meth) \<longrightarrow> restBody s pattern object mw src meth st = (st, None)) \<and>
   fst (doBindMultiObjectRest s pattern (Pointer ty a) mw src) =
     map (restDiag ty)
       (filter (\<lambda>x. isVerb s (fst x) \<and> snd x \<noteq> FuncRequest) (typeMethods ty)) \<and>
   (\<exists>m. snd (doBindMultiObjectRest s pattern (Pointer ty a) mw src) = Bound m \<and>
      dom m = (\<lambda>x. restKey s pattern ty (fst x)) ` {x \<in> set (typeMethods ty). restRegisters s x} \<and>
      (\<forall>k h. m k = Some h \<longrightarrow>
         (\<exists>x \<in> set (typeMethods ty). isVerb s (fst x) \<and> snd x = FuncRequest \<and>
            k = mergeBuildInNameToPattern s (fst x @ '':'' @ pattern) (typeName ty) (fst x) False \<and>
            h = routeItem ty a mw src (fst x))))"
proof (intro conjI impI)
  assume "\<not> isVerb s (fst meth)"
  then show "restBody s pattern object mw src meth st = (st, None)"
    by (cases meth; cases st) (simp add: restBody_def isVerb_def)
next
  show "fst (doBindMultiObjectRest s pattern (Pointer ty a) mw src) =
     map (restDiag ty)
       (filter (\<lambda>x. isVerb s (fst x) \<and> snd x \<noteq> FuncRequest) (typeMethods ty))"
    by (simp add: doBindMultiObjectRest_pointer)
next
  let ?P = "\<lambda>k x. restRegisters s x \<and> k = restKey s pattern ty (fst x)"
  let ?m = "\<lambda>k. case List.find (?P k) (rev (typeMethods ty))
                of Some x \<Rightarrow> Some (routeItem ty a mw src (fst x)) | None \<Rightarrow> None"
  have d: "dom ?m = (\<lambda>x. restKey s pattern ty (fst x)) ` {x \<in> set (typeMethods ty). restRegisters s x}"
  proof (intro set_eqI iffI)
    fix k assume "k \<in> dom ?m"
    then obtain x where "List.find (?P k) (rev (typeMethods ty)) = Some x"
      by (auto split: option.splits)
    then have "x \<in> set (typeMethods ty) \<and> ?P k x"
      using find_Some_mem [of "?P k" "rev (typeMethods ty)" x] by simp
    then show "k \<in> (\<lambda>x. restKey s pattern ty (fst x)) ` {x \<in> set (typeMethods ty). restRegisters s x}"
      by auto
  next
    fix k assume "k \<in> (\<lambda>x. restKey s pattern ty (fst x)) ` {x \<in> set (typeMethods ty). restRegisters s x}"
    then obtain x where "x \<in> set (rev (typeMethods ty))" and "?P k x" by auto
    then have "\<exists>y. List.find (?P k) (rev (typeMethods ty)) = Some y"
      by (rule find_exists)
    then show "k \<in> dom ?m" by (auto simp: dom_def)
  qed
  have only: "\<exists>x \<in> set (typeMethods ty). isVerb s (fst x) \<and> snd x = FuncRequest \<and>
            k = mergeBuildInNameToPattern s (fst x @ '':'' @ pattern) (typeName ty) (fst x) False \<and>
            h = routeItem ty a mw src (fst x)" if "?m k = Some h" for k h
  proof -
    from that obtain x where "List.find (?P k) (rev (typeMethods ty)) = Some x"
      and "h = routeItem ty a mw src (fst x)"
      by (auto split: option.splits)
    then show ?thesis
      using find_Some_mem [of "?P k" "rev (typeMethods ty)" x]
      by (auto simp: restRegisters_def restKey_def)
  qed
  show "\<exists>m. snd (doBindMultiObjectRest s pattern (Pointer ty a) mw src) = Bound m \<and>
      dom m = (\<lambda>x. restKey s pattern ty (fst x)) ` {x \<in> set (typeMethods ty). restRegisters s x} \<and>
      (\<forall>k h. m k = Some h \<longrightarrow>
         (\<exists>x \<in> set (typeMethods ty). isVerb s (fst x) \<and> snd x = FuncRequest \<and>
            k = mergeBuildInNameToPattern s (fst x @ '':'' @ pattern) (typeName ty) (fst x) False \<and>
            h = routeItem ty a mw src (fst x)))"
    unfolding doBindMultiObjectRest_pointer snd_conv
    using d only by blast
qed

theorem rest_binds_verbs_only_witness:
  "restBody exampleServer ''/user'' (Pointer exampleType 0) [] [] (''Index'', FuncRequest)
     ([], Map.empty) = (([], Map.empty), None) \<and>
   fst (doBindMultiObjectRest exampleServer ''/user'' (Pointer exampleType 0) [] []) = [] \<and>
   (\<exists>m. snd (doBindMultiObjectRest exampleServer ''/user'' (Pointer exampleType 0) [] []) =
      Bound m \<and> dom m = {''Get:/user'', ''Post:/user''})"
proof -
  have reg: "{x \<in> set (typeMethods exampleType). restRegisters exampleServer x} =
      {(''Get'', FuncRequest), (''Post'', FuncRequest)}"
    by (auto simp: example_methods restRegisters_def example_verbs)
  have none: "filter (\<lambda>x. isVerb exampleServer (fst x) \<and> snd x \<noteq> FuncRequest)
      (typeMethods exampleType) = []"
    by (simp add: example_methods example_verbs)
  note t = rest_binds_verbs_only [of exampleServer "(''Index'', FuncRequest)" "''/user''"
        "Pointer exampleType 0" "[]" "[]" "([], Map.empty)" exampleType 0, unfolded reg none]
  from t have a: "restBody exampleServer ''/user'' (Pointer exampleType 0) [] []
      (''Index'', FuncRequest) ([], Map.empty) = (([], Map.empty), None)"
    by (simp add: example_verbs)
  from t have b: "fst (doBindMultiObjectRest exampleServer ''/user'' (Pointer exampleType 0) [] []) = []"
    by simp
  from t obtain m where "snd (doBindMultiObjectRest exampleServer ''/user''
      (Pointer exampleType 0) [] []) = Bound m"
    and "dom m = (\<lambda>x. restKey exampleServer ''/user'' exampleType (fst x)) `
      {(''Get'', FuncRequest), (''Post'', FuncRequest)}"
    by blast
  then have c: "\<exists>m. snd (doBindMultiObjectRest exampleServer ''/user''
      (Pointer exampleType 0) [] []) = Bound m \<and> dom m = {''Get:/user'', ''Post:/user''}"
    by (simp add: example_rest_key)
  from a b c show ?thesis by simp
qed

section \<open>The dispatch closure on a servable pool\<close>

lemma callPhase_eq:
  "callPhase code ev f (u, fl, tr) = (effect code f u, fl @ faultOf code f u, tr @ [ev])"
  by (cases "code (mName f) (recv f) u")
     (auto simp: callPhase_def niceCallFunc_def effect_def faultOf_def split: option.splits)

lemma hookPhase_eq:
  "hookPhase code ev hook (u, fl, tr) =
     (hookEffect code hook u, fl @ hookFault code hook u,
      tr @ (case hook of Some f \<Rightarrow> [ev] | None \<Rightarrow> []))"
  by (cases hook) (simp_all add: hookPhase_def hookEffect_def hookFault_def callPhase_eq)

lemma targetPhase_eq:
  assumes "entryServes methodName cs o1"
  shows "targetPhase code methodName cs o1 st =
     ((cacheTarget methodName cs o1,
       callPhase code (EvTarget methodName) (resolved methodName cs o1) st), None)"
proof (cases "methods o1 methodName")
  case (Some c)
  then show ?thesis
    by (simp add: targetPhase_def cacheTarget_def resolved_def)
next
  case None
  with assms have "snd (rVal o1) < length cs"
    and "MethodByName (fst (rVal o1)) methodName = Some FuncRequest"
    by (simp_all add: entryServes_def)
  with None show ?thesis
    by (cases "rVal o1") (simp add: targetPhase_def cacheTarget_def resolved_def Let_def)
qed

lemma serve_eq:
  assumes get: "borrow d w = Inr (o1, p1, cs1)"
    and ok: "entryServes (dMethodName d) cs1 o1"
  shows "serve code d w r =
     (let u0 = (structs w, r);
          u1 = hookEffect code (initFunc o1) u0;
          f = resolved (dMethodName d) cs1 o1;
          u2 = effect code f u1;
          o2 = cacheTarget (dMethodName d) cs1 o1;
          u3 = hookEffect code (shutFunc o1) u2
      in \<lparr>sWorld = \<lparr>serviceMultiObjectCache =
                      (serviceMultiObjectCache w)(dStructName d \<mapsto> poolPut p1 o2),
                    cells = cs1, structs = fst u3\<rparr>,
          sRequest = snd u3,
          sTrace = [EvGet] @ (case initFunc o1 of Some f \<Rightarrow> [EvInit] | None \<Rightarrow> []) @
                   [EvTarget (dMethodName d)] @
                   (case shutFunc o1 of Some f \<Rightarrow> [EvShut] | None \<Rightarrow> []) @ [EvPut],
          sFaults = hookFault code (initFunc o1) u0 @ faultOf code f u1 @
                    hookFault code (shutFunc o1) u2,
          sPanic = None\<rparr>)"
proof -
  have sh: "shutFunc (cacheTarget (dMethodName d) cs1 o1) = shutFunc o1"
    by (simp add: cacheTarget_def split: option.splits)
  from get have g: "poolGet (lookupPool d w) (cells w) = Inr (o1, p1, cs1)"
    by (simp add: borrow_def)
  show ?thesis
    by (simp add: serve_def Let_def g hookPhase_eq targetPhase_eq [OF ok] callPhase_eq sh)
qed


lemma entryServes_cacheTarget: "entryServes mn cs (cacheTarget mn cs' o1)"
  by (simp add: entryServes_def cacheTarget_def split: option.splits)

lemma hookOf_conform:
  "MethodByName ty name \<in> {None, Some FuncRequest} \<Longrightarrow>
   hookOf ty ov name =
     Inr (case MethodByName ty name of None \<Rightarrow> None
          | Some ft \<Rightarrow> Some \<lparr>recv = ov, mName = name\<rparr>)"
  by (auto simp: hookOf_def)

lemma factory_ok:
  assumes "hooksConform ty"
  shows "\<exists>o1. newServiceMultiObjectInfo ty a cs = Inr (o1, cs @ [Some a]) \<and>
     rVal o1 = (ty, length cs) \<and> methods o1 = Map.empty \<and>
     initFunc o1 = (case MethodByName ty ''Init'' of None \<Rightarrow> None
                    | Some ft \<Rightarrow> Some \<lparr>recv = Some a, mName = ''Init''\<rparr>) \<and>
     shutFunc o1 = (case MethodByName ty ''Shut'' of None \<Rightarrow> None
                    | Some ft \<Rightarrow> Some \<lparr>recv = Some a, mName = ''Shut''\<rparr>)"
proof -
  have set: "(cs @ [None])[length cs := Some a] = cs @ [Some a]" by simp
  have get: "(cs @ [Some a]) ! length cs = Some a" by simp
  from assms show ?thesis
    unfolding newServiceMultiObjectInfo_def Let_def set get
    by (simp add: hooksConform_def hookOf_conform)
qed

lemma poolGet_servable:
  assumes "poolServes mn cs p"
  shows "\<exists>o1 p1 cs1. poolGet p cs = Inr (o1, p1, cs1) \<and> entryServes mn cs1 o1 \<and>
     poolServes mn cs1 p1"
proof (cases "poolIdle p")
  case Nil
  from assms have h: "hooksConform (poolObjectType p)"
    and m: "MethodByName (poolObjectType p) mn = Some FuncRequest"
    by (simp_all add: poolServes_def)
  from factory_ok [OF h, of "poolObject p" cs] obtain o1 where
    f: "newServiceMultiObjectInfo (poolObjectType p) (poolObject p) cs =
          Inr (o1, cs @ [Some (poolObject p)])"
    and r: "rVal o1 = (poolObjectType p, length cs)"
    by blast
  have "entryServes mn (cs @ [Some (poolObject p)]) o1"
    by (simp add: entryServes_def r m)
  moreover have "poolServes mn (cs @ [Some (poolObject p)]) p"
    using h m Nil by (simp add: poolServes_def)
  ultimately show ?thesis using Nil f by (simp add: poolGet_def)
next
  case (Cons x xs)
  with assms show ?thesis by (simp add: poolGet_def poolServes_def)
qed

lemma borrow_servable:
  assumes "servable d w"
  shows "\<exists>o1 p1 cs1. borrow d w = Inr (o1, p1, cs1) \<and> entryServes (dMethodName d) cs1 o1 \<and>
     poolServes (dMethodName d) cs1 p1"
  using poolGet_servable [of "dMethodName d" "cells w" "lookupPool d w"] assms
  by (simp add: servable_def borrow_def)

lemma serve_servable:
  assumes get: "borrow d w = Inr (o1, p1, cs1)"
    and ok: "entryServes (dMethodName d) cs1 o1"
    and pool: "poolServes (dMethodName d) cs1 p1"
  shows "servable d (sWorld (serve code d w r))"
proof -
  have "poolServes (dMethodName d) cs1 (poolPut p1 (cacheTarget (dMethodName d) cs1 o1))"
    using pool by (simp add: poolServes_def poolPut_def entryServes_cacheTarget)
  then show ?thesis
    by (simp add: serve_eq [OF get ok] Let_def servable_def lookupPool_def)
qed

lemma factory_result:
  assumes "newServiceMultiObjectInfo ty a cs = Inr (o1, cs1)"
  shows "rVal o1 = (ty, length cs) \<and> cs1 = cs @ [Some a] \<and> methods o1 = Map.empty \<and>
     hookOf ty (Some a) ''Init'' = Inr (initFunc o1) \<and>
     hookOf ty (Some a) ''Shut'' = Inr (shutFunc o1)"
proof -
  have set: "(cs @ [None])[length cs := Some a] = cs @ [Some a]" by simp
  have get: "(cs @ [Some a]) ! length cs = Some a" by simp
  from assms show ?thesis
    unfolding newServiceMultiObjectInfo_def Let_def set get
    by (auto split: sum.splits)
qed

lemma factory_eq:
  "newServiceMultiObjectInfo ty a cs =
     (case hookOf ty (Some a) ''Init'' of
        Inl e \<Rightarrow> Inl e
      | Inr i \<Rightarrow>
          (case hookOf ty (Some a) ''Shut'' of
             Inl e \<Rightarrow> Inl e
           | Inr sh \<Rightarrow>
               Inr (\<lparr>rVal = (ty, length cs), methods = Map.empty, initFunc = i, shutFunc = sh\<rparr>,
                    cs @ [Some a])))"
proof -
  have set: "(cs @ [None])[length cs := Some a] = cs @ [Some a]" by simp
  have get: "(cs @ [Some a]) ! length cs = Some a" by simp
  show ?thesis
    unfolding newServiceMultiObjectInfo_def Let_def set get by (rule refl)
qed

lemma hookOf_other:
  assumes "MethodByName ty name \<notin> {None, Some FuncRequest}"
  shows "\<exists>e. hookOf ty ov name = Inl e"
proof (cases "MethodByName ty name")
  case None
  with assms show ?thesis by simp
next
  case (Some ft)
  with assms show ?thesis by (cases ft) (simp_all add: hookOf_def)
qed

lemma factory_panics:
  assumes "\<not> hooksConform ty"
  shows "\<exists>e. newServiceMultiObjectInfo ty a cs = Inl e"
proof (cases "hookOf ty (Some a) ''Init''")
  case (Inl e)
  then show ?thesis by (simp add: factory_eq)
next
  case (Inr h)
  then have "MethodByName ty ''Init'' \<in> {None, Some FuncRequest}"
    by (auto simp: hookOf_def split: option.splits funcType.splits)
  with assms have "MethodByName ty ''Shut'' \<notin> {None, Some FuncRequest}"
    unfolding hooksConform_def by blast
  then obtain e where "hookOf ty (Some a) ''Shut'' = Inl e"
    using hookOf_other by blast
  with Inr show ?thesis by (simp add: factory_eq)
qed

lemma example_servable:
  "servable (closureOf exampleType 0 ''Index'') exampleWorld"
  "servable (closureOf exampleType 0 ''Post'') exampleWorld"
  by code_simp+

lemma example_borrow:
  "borrow (closureOf exampleType 0 m) exampleWorld =
     Inr (exampleEntry 0,
          gpoolNew exampleType 0, [Some 0])"
  by (simp add: borrow_def lookupPool_def exampleWorld_def initWorld_def closureOf_def
        poolGet_def gpoolNew_def newServiceMultiObjectInfo_def hookOf_def MethodByName_def
        exampleType_def exampleEntry_def Let_def)

text \<open>The closure under either policy after an intercepted panic.\<close>

lemma serveUnder_run: "serveUnder RunLaterPhases code d w r = serve code d w r"
  by (simp add: serveUnder_def serve_def Let_def split: sum.splits prod.splits option.splits)

lemma serveUnder_eq:
  assumes get: "borrow d w = Inr (o1, p1, cs1)"
    and ok: "entryServes (dMethodName d) cs1 o1"
  shows "serveUnder policy code d w r =
     (let u0 = (structs w, r);
          u1 = hookEffect code (initFunc o1) u0;
          f = resolved (dMethodName d) cs1 o1;
          u2 = effect code f u1;
          u3 = hookEffect code (shutFunc o1) u2;
          f0 = hookFault code (initFunc o1) u0;
          f1 = faultOf code f u1;
          f2 = hookFault code (shutFunc o1) u2;
          evI = (case initFunc o1 of Some f \<Rightarrow> [EvInit] | None \<Rightarrow> []);
          evS = (case shutFunc o1 of Some f \<Rightarrow> [EvShut] | None \<Rightarrow> []);
          left = (\<lambda>u tr fl.
            \<lparr>sWorld = \<lparr>serviceMultiObjectCache =
                         (serviceMultiObjectCache w)(dStructName d \<mapsto> p1),
                       cells = cs1, structs = fst u\<rparr>,
             sRequest = snd u, sTrace = tr, sFaults = fl, sPanic = None\<rparr>)
      in if policy = SkipLaterPhases \<and> f0 \<noteq> [] then left u1 ([EvGet] @ evI) f0
         else if policy = SkipLaterPhases \<and> f1 \<noteq> []
           then left u2 ([EvGet] @ evI @ [EvTarget (dMethodName d)]) (f0 @ f1)
         else if policy = SkipLaterPhases \<and> f2 \<noteq> []
           then left u3 ([EvGet] @ evI @ [EvTarget (dMethodName d)] @ evS) (f0 @ f1 @ f2)
         else serve code d w r)"
proof -
  have sh: "shutFunc (cacheTarget (dMethodName d) cs1 o1) = shutFunc o1"
    by (simp add: cacheTarget_def split: option.splits)
  from get have g: "poolGet (lookupPool d w) (cells w) = Inr (o1, p1, cs1)"
    by (simp add: borrow_def)
  show ?thesis
    by (simp add: serveUnder_def serve_eq [OF get ok] Let_def g hookPhase_eq
          targetPhase_eq [OF ok] callPhase_eq sh faulted_def endedAt_def)
qed

text \<open>Under either policy the closure on a servable pool does not end in a panic.\<close>

lemma serveUnder_inside:
  assumes "servable d w"
  shows "sPanic (serveUnder policy code d w r) = None"
proof -
  from borrow_servable [OF assms] obtain o1 p1 cs1 where
    get: "borrow d w = Inr (o1, p1, cs1)" and ok: "entryServes (dMethodName d) cs1 o1"
    by (elim exE conjE) (rule that; assumption)
  show ?thesis
    unfolding serveUnder_eq [OF get ok, of policy code r] serve_eq [OF get ok, of code r]
    by (simp add: Let_def)
qed



section \<open>One call of the dispatch closure\<close>




text \<open>
  Claim C2. With the failure boundary of section 4.5 of the spec, a call of the dispatch
  closure on a servable pool never ends in a panic, whatever the init hook, the target
  method and the shut hook do: the errors reported for the request are exactly the panics
  of the three calls, the entry is back in the pool, the pool is servable again, and the
  next request to the same route does not end in a panic either.
\<close>

theorem panics_stay_inside:
  assumes "servable d w"
  shows "\<exists>o1 p1 cs1. borrow d w = Inr (o1, p1, cs1) \<and>
     sPanic (serve code d w r) = None \<and>
     sFaults (serve code d w r) =
       hookFault code (initFunc o1) (structs w, r) @
       faultOf code (resolved (dMethodName d) cs1 o1)
         (hookEffect code (initFunc o1) (structs w, r)) @
       hookFault code (shutFunc o1)
         (effect code (resolved (dMethodName d) cs1 o1)
            (hookEffect code (initFunc o1) (structs w, r))) \<and>
     serviceMultiObjectCache (sWorld (serve code d w r)) (dStructName d) =
       Some (poolPut p1 (cacheTarget (dMethodName d) cs1 o1)) \<and>
     servable d (sWorld (serve code d w r)) \<and>
     sPanic (serve code d (sWorld (serve code d w r)) r') = None"
proof -
  from borrow_servable [OF assms] obtain o1 p1 cs1 where
    get: "borrow d w = Inr (o1, p1, cs1)" and ok: "entryServes (dMethodName d) cs1 o1"
    and pool: "poolServes (dMethodName d) cs1 p1"
    by blast
  have next_ok: "servable d (sWorld (serve code d w r))"
    by (rule serve_servable [OF get ok pool])
  from borrow_servable [OF next_ok] obtain o2 p2 cs2 where
    get2: "borrow d (sWorld (serve code d w r)) = Inr (o2, p2, cs2)"
    and ok2: "entryServes (dMethodName d) cs2 o2"
    by blast
  have again: "sPanic (serve code d (sWorld (serve code d w r)) r') = None"
    by (simp add: serve_eq [OF get2 ok2] Let_def)
  have a: "sPanic (serve code d w r) = None"
    by (simp add: serve_eq [OF get ok] Let_def)
  have b: "sFaults (serve code d w r) =
       hookFault code (initFunc o1) (structs w, r) @
       faultOf code (resolved (dMethodName d) cs1 o1)
         (hookEffect code (initFunc o1) (structs w, r)) @
       hookFault code (shutFunc o1)
         (effect code (resolved (dMethodName d) cs1 o1)
            (hookEffect code (initFunc o1) (structs w, r)))"
    by (simp add: serve_eq [OF get ok] Let_def)
  have c: "serviceMultiObjectCache (sWorld (serve code d w r)) (dStructName d) =
       Some (poolPut p1 (cacheTarget (dMethodName d) cs1 o1))"
    by (simp add: serve_eq [OF get ok] Let_def)
  from get a b c next_ok again show ?thesis by blast
qed

theorem panics_stay_inside_witness:
  "servable (closureOf exampleType 0 ''Post'') exampleWorld \<and>
   sPanic (serve exampleCode (closureOf exampleType 0 ''Post'') exampleWorld exampleRequest) = None \<and>
   sFaults (serve exampleCode (closureOf exampleType 0 ''Post'') exampleWorld exampleRequest) =
     [''boom''] \<and>
   sPanic (serve exampleCode (closureOf exampleType 0 ''Post'')
     (sWorld (serve exampleCode (closureOf exampleType 0 ''Post'') exampleWorld exampleRequest))
     exampleRequest) = None"
proof -
  let ?d = "closureOf exampleType 0 ''Post''"
  from panics_stay_inside [OF example_servable(2), of exampleCode exampleRequest exampleRequest]
  obtain o1 p1 cs1 where b: "borrow ?d exampleWorld = Inr (o1, p1, cs1)"
    and p: "sPanic (serve exampleCode ?d exampleWorld exampleRequest) = None"
    and f: "sFaults (serve exampleCode ?d exampleWorld exampleRequest) =
       hookFault exampleCode (initFunc o1) (structs exampleWorld, exampleRequest) @
       faultOf exampleCode (resolved (dMethodName ?d) cs1 o1)
         (hookEffect exampleCode (initFunc o1) (structs exampleWorld, exampleRequest)) @
       hookFault exampleCode (shutFunc o1)
         (effect exampleCode (resolved (dMethodName ?d) cs1 o1)
            (hookEffect exampleCode (initFunc o1) (structs exampleWorld, exampleRequest)))"
    and n: "sPanic (serve exampleCode ?d
       (sWorld (serve exampleCode ?d exampleWorld exampleRequest)) exampleRequest) = None"
    by (elim exE conjE) (rule that; assumption)
  from b have o1: "o1 = exampleEntry 0" and cs1: "cs1 = [Some 0]"
    by (simp_all add: example_borrow)
  from f have f': "sFaults (serve exampleCode ?d exampleWorld exampleRequest) = [''boom'']"
    by (simp add: o1 cs1 closureOf_def exampleEntry_def hookFault_def faultOf_def hookEffect_def effect_def
          resolved_def exampleCode_def)
  from example_servable(2) p f' n show ?thesis by simp
qed

section \<open>The pool factory\<close>

text \<open>
  Claim C8 does not hold of the code. The factory asserts the type \<open>func(*Request)\<close>
  on \<open>Init\<close> and on \<open>Shut\<close> with the one-result form of the type assertion, so for
  a type whose \<open>Init\<close> or \<open>Shut\<close> has another type the construction of an entry
  panics, and with it the first request to a route of that type, before any user code
  runs.
\<close>

theorem hook_assertion_panics:
  "(MethodByName ty ''Init'' = Some (FuncOther t) \<longrightarrow>
      newServiceMultiObjectInfo ty a cs = Inl (conversionPanic t)) \<and>
   (\<not> hooksConform ty \<longrightarrow> (\<exists>e. newServiceMultiObjectInfo ty a cs = Inl e)) \<and>
   (serviceMultiObjectCache w (dStructName d) = None \<and> \<not> hooksConform (dType d) \<longrightarrow>
      sPanic (serve code d w r) \<noteq> None \<and> sTrace (serve code d w r) = [] \<and>
      sFaults (serve code d w r) = [])"
proof (intro conjI impI)
  assume "MethodByName ty ''Init'' = Some (FuncOther t)"
  then show "newServiceMultiObjectInfo ty a cs = Inl (conversionPanic t)"
    by (simp add: factory_eq hookOf_def conversionPanic_def)
next
  assume "\<not> hooksConform ty"
  then show "\<exists>e. newServiceMultiObjectInfo ty a cs = Inl e" by (rule factory_panics)
next
  assume h: "serviceMultiObjectCache w (dStructName d) = None \<and> \<not> hooksConform (dType d)"
  then obtain e where "newServiceMultiObjectInfo (dType d) (dObject d) (cells w) = Inl e"
    using factory_panics by blast
  with h have g: "poolGet (lookupPool d w) (cells w) = Inl e"
    by (simp add: poolGet_def lookupPool_def gpoolNew_def)
  show "sPanic (serve code d w r) \<noteq> None" "sTrace (serve code d w r) = []"
    "sFaults (serve code d w r) = []"
    by (simp_all add: serve_def Let_def g)
qed

theorem hook_assertion_panics_witness:
  "MethodByName exampleBadType ''Init'' = Some (FuncOther ''func()'') \<and>
   (case snd (BindMultiObject exampleServer ''/job'' (Pointer exampleBadType 0) []) of
      Bound m \<Rightarrow> map_option itemFunc (m ''/job/index@DEFAULT'')
    | _ \<Rightarrow> None) = Some (closureOf exampleBadType 0 ''Index'') \<and>
   newServiceMultiObjectInfo exampleBadType 0 [] = Inl (conversionPanic ''func()'') \<and>
   sPanic (serve exampleCode (closureOf exampleBadType 0 ''Index'') exampleWorld exampleRequest)
     \<noteq> None \<and>
   sTrace (serve exampleCode (closureOf exampleBadType 0 ''Index'') exampleWorld exampleRequest)
     = []"
proof -
  have i: "MethodByName exampleBadType ''Init'' = Some (FuncOther ''func()'')"
    by code_simp
  have b: "(case snd (BindMultiObject exampleServer ''/job'' (Pointer exampleBadType 0) []) of
      Bound m \<Rightarrow> map_option itemFunc (m ''/job/index@DEFAULT'')
    | _ \<Rightarrow> None) = Some (closureOf exampleBadType 0 ''Index'')"
    by code_simp
  have c: "serviceMultiObjectCache exampleWorld
      (dStructName (closureOf exampleBadType 0 ''Index'')) = None"
    by (simp add: exampleWorld_def initWorld_def)
  have h: "\<not> hooksConform (dType (closureOf exampleBadType 0 ''Index''))"
    by code_simp
  note t = hook_assertion_panics [of exampleBadType "''func()''" 0 "[]" exampleWorld
      "closureOf exampleBadType 0 ''Index''" exampleCode exampleRequest]
  from t i have n: "newServiceMultiObjectInfo exampleBadType 0 [] =
      Inl (conversionPanic ''func()'')"
    by blast
  from t c h have p: "sPanic (serve exampleCode (closureOf exampleBadType 0 ''Index'')
        exampleWorld exampleRequest) \<noteq> None"
    and tr: "sTrace (serve exampleCode (closureOf exampleBadType 0 ''Index'') exampleWorld
        exampleRequest) = []"
    by blast+
  from i b n p tr show ?thesis by (intro conjI)
qed

text \<open>
  Claim C1 does not hold of the code. The bound object is a pointer, and the factory
  copies the pointer into a new cell: two entries borrowed from one pool at the same
  time have different cells, but both cells hold the address of the prototype, so every
  method is called on the prototype itself, whichever entry serves the request.
\<close>

theorem pooled_entries_share_prototype:
  assumes idle: "poolIdle p = []"
    and g1: "poolGet p cs = Inr (o1, p1, cs1)"
    and g2: "poolGet p1 cs1 = Inr (o2, p2, cs2)"
  shows "snd (rVal o1) \<noteq> snd (rVal o2) \<and>
     cs2 ! snd (rVal o1) = Some (poolObject p) \<and>
     cs2 ! snd (rVal o2) = Some (poolObject p) \<and>
     (\<forall>m. resolved m cs2 o1 = \<lparr>recv = Some (poolObject p), mName = m\<rparr> \<and>
          resolved m cs2 o2 = \<lparr>recv = Some (poolObject p), mName = m\<rparr>) \<and>
     initFunc o1 = initFunc o2 \<and> shutFunc o1 = shutFunc o2"
proof -
  let ?ty = "poolObjectType p" and ?a = "poolObject p"
  from g1 idle have f1: "newServiceMultiObjectInfo ?ty ?a cs = Inr (o1, cs1)" and p1: "p1 = p"
    by (auto simp: poolGet_def split: sum.splits)
  from g2 idle p1 have f2: "newServiceMultiObjectInfo ?ty ?a cs1 = Inr (o2, cs2)"
    by (auto simp: poolGet_def split: sum.splits)
  note r1 = factory_result [OF f1] and r2 = factory_result [OF f2]
  from r1 r2 have cs2: "cs2 = cs @ [Some ?a, Some ?a]"
    and v1: "rVal o1 = (?ty, length cs)" and v2: "rVal o2 = (?ty, Suc (length cs))"
    and m1: "methods o1 = Map.empty" and m2: "methods o2 = Map.empty"
    by simp_all
  from r1 r2 have "Inr (initFunc o1) = (Inr (initFunc o2) :: string + boundMethod option)"
    and "Inr (shutFunc o1) = (Inr (shutFunc o2) :: string + boundMethod option)"
    by metis+
  then have hooks: "initFunc o1 = initFunc o2 \<and> shutFunc o1 = shutFunc o2" by simp
  have n1: "cs2 ! length cs = Some ?a" and n2: "cs2 ! Suc (length cs) = Some ?a"
    by (simp_all add: cs2 nth_append)
  show ?thesis
    using hooks by (simp add: v1 v2 n1 n2 resolved_def m1 m2)
qed

theorem pooled_entries_share_prototype_witness:
  "poolGet (gpoolNew exampleType 0) [] = Inr (exampleEntry 0, gpoolNew exampleType 0, [Some 0]) \<and>
   poolGet (gpoolNew exampleType 0) [Some 0] =
     Inr (exampleEntry 1, gpoolNew exampleType 0, [Some 0, Some 0]) \<and>
   resolved ''Index'' [Some 0, Some 0] (exampleEntry 0) = \<lparr>recv = Some 0, mName = ''Index''\<rparr> \<and>
   resolved ''Index'' [Some 0, Some 0] (exampleEntry 1) = \<lparr>recv = Some 0, mName = ''Index''\<rparr> \<and>
   fst (effect exampleCode (resolved ''Index'' [Some 0, Some 0] (exampleEntry 1))
         (effect exampleCode (resolved ''Index'' [Some 0, Some 0] (exampleEntry 0))
            (structs exampleWorld, exampleRequest))) = [[(''hits'', 2)]]"
proof -
  have idle: "poolIdle (gpoolNew exampleType 0) = []" by (simp add: gpoolNew_def)
  have g1: "poolGet (gpoolNew exampleType 0) [] =
      Inr (exampleEntry 0, gpoolNew exampleType 0, [Some 0])"
    by (simp add: poolGet_def gpoolNew_def newServiceMultiObjectInfo_def hookOf_def
          MethodByName_def exampleType_def exampleEntry_def Let_def)
  have g2: "poolGet (gpoolNew exampleType 0) [Some 0] =
      Inr (exampleEntry 1, gpoolNew exampleType 0, [Some 0, Some 0])"
    by (simp add: poolGet_def gpoolNew_def newServiceMultiObjectInfo_def hookOf_def
          MethodByName_def exampleType_def exampleEntry_def Let_def)
  from pooled_entries_share_prototype [OF idle g1 g2]
  have r: "resolved ''Index'' [Some 0, Some 0] (exampleEntry 0) =
        \<lparr>recv = Some 0, mName = ''Index''\<rparr>"
      "resolved ''Index'' [Some 0, Some 0] (exampleEntry 1) =
        \<lparr>recv = Some 0, mName = ''Index''\<rparr>"
    by (simp_all add: gpoolNew_def)
  have e: "fst (effect exampleCode (resolved ''Index'' [Some 0, Some 0] (exampleEntry 1))
         (effect exampleCode (resolved ''Index'' [Some 0, Some 0] (exampleEntry 0))
            (structs exampleWorld, exampleRequest))) = [[(''hits'', 2)]]"
    unfolding r
    by (simp add: effect_def exampleCode_def exampleWorld_def initWorld_def bumpHits_def)
  from g1 g2 r e show ?thesis by (intro conjI)
qed

end
